theory Spec2Isabelle
  imports Complex_Main
begin

section \<open>Dynamic level of detail in Voyager: data model\<close>

text \<open>
  The level-of-detail code lives in two places: the \<^verbatim>\<open>tick\<close> method of the orbit
  navigation component (scoring, classification with hysteresis, texture budget, apply
  loop) and the \<^verbatim>\<open>tock\<close> method of \<^verbatim>\<open>CVDerivativesController\<close> (scoring and a
  rank table). JavaScript numbers are modelled as real numbers (weights, coordinates) and as
  integers (pixel counts); \<^verbatim>\<open>NaN\<close> and the infinities are outside the model.
\<close>

text \<open>
  Modelled from the spec: the declaration of the enum \<^verbatim>\<open>EDerivativeQuality\<close>
  (\<^verbatim>\<open>client/schema/model\<close>) is not among the sources. The four members are the ones
  the code names (\<^verbatim>\<open>sizeMap\<close>, \<^verbatim>\<open>steps\<close>), in the order the spec gives them:
  Thumb < Low < Medium < High. \<open>qualityIndex\<close> is the member's numeric value, which the
  code compares with \<^verbatim>\<open><\<close>, \<^verbatim>\<open><=\<close> and decrements with \<^verbatim>\<open>--\<close>.
\<close>

datatype EDerivativeQuality = Thumb | Low | Medium | High

fun qualityIndex :: "EDerivativeQuality \<Rightarrow> nat" where
  "qualityIndex Thumb = 0"
| "qualityIndex Low = 1"
| "qualityIndex Medium = 2"
| "qualityIndex High = 3"

instantiation EDerivativeQuality :: linorder
begin

definition less_eq_EDerivativeQuality :: "EDerivativeQuality \<Rightarrow> EDerivativeQuality \<Rightarrow> bool" where
  "less_eq_EDerivativeQuality a b \<longleftrightarrow> qualityIndex a \<le> qualityIndex b"

definition less_EDerivativeQuality :: "EDerivativeQuality \<Rightarrow> EDerivativeQuality \<Rightarrow> bool" where
  "less_EDerivativeQuality a b \<longleftrightarrow> qualityIndex a < qualityIndex b"

instance
proof
  fix a b c :: EDerivativeQuality
  show "a < b \<longleftrightarrow> a \<le> b \<and> \<not> b \<le> a"
    by (auto simp: less_eq_EDerivativeQuality_def less_EDerivativeQuality_def)
  show "a \<le> a"
    by (simp add: less_eq_EDerivativeQuality_def)
  show "a \<le> b \<Longrightarrow> b \<le> c \<Longrightarrow> a \<le> c"
    by (simp add: less_eq_EDerivativeQuality_def)
  show "a \<le> b \<Longrightarrow> b \<le> a \<Longrightarrow> a = b"
    by (cases a; cases b) (simp_all add: less_eq_EDerivativeQuality_def)
  show "a \<le> b \<or> b \<le> a"
    by (auto simp: less_eq_EDerivativeQuality_def)
qed

end

text \<open>\<^verbatim>\<open>m.quality--\<close>; the loop guard \<^verbatim>\<open>Thumb < m.quality\<close> keeps it away from Thumb.\<close>

fun decrement :: "EDerivativeQuality \<Rightarrow> EDerivativeQuality" where
  "decrement High = Medium"
| "decrement Medium = Low"
| "decrement Low = Thumb"
| "decrement Thumb = Thumb"

text \<open>
  \<^verbatim>\<open>Vector3\<close> and \<^verbatim>\<open>Box3\<close> of three.js, as far as the scorer uses them. The empty
  box of \<^verbatim>\<open>makeEmpty\<close> (minimum \<open>+\<infinity>\<close>, maximum \<open>-\<infinity>\<close>) is a constructor of its
  own.
\<close>

record Vector3 =
  vx :: real
  vy :: real
  vz :: real

datatype Box3 = EmptyBox | Box3 (box_min: Vector3) (box_max: Vector3)

definition makeEmpty :: "Box3" where
  "makeEmpty = EmptyBox"

fun expandByPoint :: "Box3 \<Rightarrow> Vector3 \<Rightarrow> Box3" where
  "expandByPoint EmptyBox p = Box3 p p"
| "expandByPoint (Box3 mn mx) p =
     Box3 \<lparr>vx = min (vx mn) (vx p), vy = min (vy mn) (vy p), vz = min (vz mn) (vz p)\<rparr>
          \<lparr>vx = max (vx mx) (vx p), vy = max (vy mx) (vy p), vz = max (vz mx) (vz p)\<rparr>"

fun isEmpty :: "Box3 \<Rightarrow> bool" where
  "isEmpty EmptyBox = True"
| "isEmpty (Box3 mn mx) = (vx mx < vx mn \<or> vy mx < vy mn \<or> vz mx < vz mn)"

fun getSize :: "Box3 \<Rightarrow> Vector3" where
  "getSize b =
     (if isEmpty b then \<lparr>vx = 0, vy = 0, vz = 0\<rparr>
      else \<lparr>vx = vx (box_max b) - vx (box_min b),
            vy = vy (box_max b) - vy (box_min b),
            vz = vz (box_max b) - vz (box_min b)\<rparr>)"

fun getCenter :: "Box3 \<Rightarrow> Vector3" where
  "getCenter b =
     (if isEmpty b then \<lparr>vx = 0, vy = 0, vz = 0\<rparr>
      else \<lparr>vx = (vx (box_min b) + vx (box_max b)) * (1/2),
            vy = (vy (box_min b) + vy (box_max b)) * (1/2),
            vz = (vz (box_min b) + vz (box_max b)) * (1/2)\<rparr>)"

text \<open>
  The box that both implementations build: \<^verbatim>\<open>makeEmpty\<close>, then \<^verbatim>\<open>expandByPoint\<close>
  for each projected corner. The projection itself (\<^verbatim>\<open>Vector3.project\<close>) belongs to
  three.js; the projected corners are the input here.
\<close>

definition ndcBox :: "Vector3 list \<Rightarrow> Box3" where
  "ndcBox corners = foldl expandByPoint makeEmpty corners"

section \<open>Importance scorer\<close>

text \<open>
  \<^verbatim>\<open>maxCenterWeight\<close>, the same in both files. On the empty box the distances are
  infinite and the quotient is 0.
\<close>

fun maxCenterWeight :: "Box3 \<Rightarrow> real" where
  "maxCenterWeight EmptyBox = 0"
| "maxCenterWeight (Box3 mn mx) =
     (let dx = max (max (- vx mx) (vx mn)) 0;
          dy = max (max (- vy mx) (vy mn)) 0
      in 1 / (1 + dx + dy))"

definition depthWeight :: "real \<Rightarrow> real \<Rightarrow> real" where
  "depthWeight mn mx =
     (if mx < -1 \<or> 1 < mn then 0
      else if -1 < mn \<and> mx < 1 then 1
      else 1 - 2 / (max 1 (mx - 1) - min (-1) (mn + 1)))"

text \<open>\<^verbatim>\<open>depthWeight(box.min.z, box.max.z)\<close>; the empty box has \<open>max.z = -\<infinity> < -1\<close>.\<close>

fun boxDepthWeight :: "Box3 \<Rightarrow> real" where
  "boxDepthWeight EmptyBox = 0"
| "boxDepthWeight (Box3 mn mx) = depthWeight (vz mn) (vz mx)"

definition clampSize :: "real \<Rightarrow> real" where
  "clampSize sz = min sz 1"

definition relSize_of :: "Box3 \<Rightarrow> real" where
  "relSize_of b = (vx (getSize b) * vy (getSize b)) / 4"

text \<open>The weight of \<^verbatim>\<open>tick\<close>: \<^verbatim>\<open>relSize*maxCenterWeight(box)*depthWeight(...)\<close>.\<close>

definition tickWeight :: "Box3 \<Rightarrow> real" where
  "tickWeight b = relSize_of b * maxCenterWeight b * boxDepthWeight b"

text \<open>The weight of \<^verbatim>\<open>tock\<close>: the same with \<^verbatim>\<open>clampSize(relSize)\<close>.\<close>

definition tockWeight :: "Box3 \<Rightarrow> real" where
  "tockWeight b = clampSize (relSize_of b) * maxCenterWeight b * boxDepthWeight b"

section \<open>Quality classifier\<close>

definition hyst :: real where
  "hyst = 0.02"

definition steps :: "(real \<times> EDerivativeQuality) list" where
  "steps = [(0.03, Thumb), (0.10, Low), (0.3, Medium)]"

definition getQuality :: "EDerivativeQuality \<Rightarrow> real \<Rightarrow> EDerivativeQuality" where
  "getQuality current relSize =
     (case find (\<lambda>(sz, q). relSize < (if current \<le> q then sz + hyst else sz)) steps of
        Some (sz, q) \<Rightarrow> q
      | None \<Rightarrow> High)"

text \<open>
  The classifier as the specification words it, for comparison with \<open>getQuality\<close>: the
  margin is added when the step's tier is at or below the current tier.
\<close>

definition getQuality_spec :: "EDerivativeQuality \<Rightarrow> real \<Rightarrow> EDerivativeQuality" where
  "getQuality_spec current relSize =
     (case find (\<lambda>(sz, q). relSize < (if q \<le> current then sz + hyst else sz)) steps of
        Some (sz, q) \<Rightarrow> q
      | None \<Rightarrow> High)"

text \<open>Consecutive frames: each frame's tier is the next frame's current tier.\<close>

definition runFrames :: "EDerivativeQuality \<Rightarrow> real list \<Rightarrow> EDerivativeQuality" where
  "runFrames current weights = foldl getQuality current weights"

section \<open>Models and the entries of one pass\<close>

text \<open>
  A model component, as far as the pass reads and writes it: the current quality
  (\<^verbatim>\<open>model.ins.quality.value\<close>), the corners of its bounding box projected by the active
  camera, and the collaborator \<^verbatim>\<open>model.derivatives.select(EDerivativeUsage.Web3D, q)\<close>,
  which is not among the sources and is a parameter here: it answers with the quality of
  the best matching derivative (\<^verbatim>\<open>bestMatchDerivative.data.quality\<close>) or with null.
\<close>

record CVModel2 =
  ins_quality :: EDerivativeQuality
  corners :: "Vector3 list"
  derivatives_select :: "EDerivativeQuality \<Rightarrow> EDerivativeQuality option"

text \<open>
  The objects \<^verbatim>\<open>{model, weight, relSize, quality}\<close> of \<^verbatim>\<open>tick\<close>. The reference to
  the model is its position in the list that \<^verbatim>\<open>getGraphComponents(CVModel2)\<close> returns.
\<close>

record entry =
  model :: nat
  weight :: real
  relSize :: real
  quality :: EDerivativeQuality

definition tickEntry :: "nat \<Rightarrow> CVModel2 \<Rightarrow> entry" where
  "tickEntry i m =
     (let box = ndcBox (corners m);
          w = tickWeight box
      in \<lparr>model = i, weight = w, relSize = relSize_of box,
          quality = getQuality (ins_quality m) w\<rparr>)"

definition tickEntries :: "CVModel2 list \<Rightarrow> entry list" where
  "tickEntries ms = map (\<lambda>(i, m). tickEntry i m) (enumerate 0 ms)"

section \<open>Budget allocator\<close>

fun sizeMap :: "EDerivativeQuality \<Rightarrow> int" where
  "sizeMap Thumb = 512 * 512"
| "sizeMap Low = 1024 * 1024"
| "sizeMap Medium = 2048 * 2048"
| "sizeMap High = 4096 * 4096"

text \<open>
  The \<^verbatim>\<open>while\<close> loop that lowers one model's quality. The counters of \<^verbatim>\<open>downgrades\<close>
  only feed a debug message and are left out.
\<close>

function downgrade :: "int \<Rightarrow> int \<Rightarrow> EDerivativeQuality \<Rightarrow> EDerivativeQuality" where
  "downgrade reserved texSize q =
     (if (16384 * 16384 - reserved) < texSize + sizeMap q \<and> Thumb < q
      then downgrade reserved texSize (decrement q)
      else q)"
  by pat_completeness auto
termination
proof (relation "measure (\<lambda>(reserved, texSize, q). qualityIndex q)")
  show "wf (measure (\<lambda>(reserved, texSize, q). qualityIndex q))"
    by simp
next
  fix reserved texSize :: int and q :: EDerivativeQuality
  assume "16384 * 16384 - reserved < texSize + sizeMap q \<and> Thumb < q"
  then show "((reserved, texSize, decrement q), (reserved, texSize, q))
      \<in> measure (\<lambda>(reserved, texSize, q). qualityIndex q)"
    by (cases q) (simp_all add: less_EDerivativeQuality_def)
qed

declare downgrade.simps [simp del]

text \<open>The body of \<^verbatim>\<open>models.forEach\<close>, with \<^verbatim>\<open>reserved\<close> and \<^verbatim>\<open>texSize\<close> passed on.\<close>

fun budgetLoop :: "int \<Rightarrow> int \<Rightarrow> entry list \<Rightarrow> entry list" where
  "budgetLoop reserved texSize [] = []"
| "budgetLoop reserved texSize (m # ms) =
     (let reserved' = reserved - 512 * 512;
          q = downgrade reserved' texSize (quality m)
      in m\<lparr>quality := q\<rparr> # budgetLoop reserved' (texSize + sizeMap q) ms)"

text \<open>
  \<^verbatim>\<open>models.sort((a, b)=> a.weight - b.weight)\<close> is a stable ascending sort, as
  \<open>sort_key\<close> is; then the reservation and the loop.
\<close>

definition allocate :: "entry list \<Rightarrow> entry list" where
  "allocate models =
     (let sorted = sort_key weight models;
          reserved = 2 * int (length sorted) * 512 * 512 + 1024 * 1024 * 4
      in budgetLoop reserved 0 sorted)"

text \<open>The sum of the assigned tiers' pixel costs.\<close>

definition totalCost :: "entry list \<Rightarrow> int" where
  "totalCost es = sum_list (map (\<lambda>e. sizeMap (quality e)) es)"

text \<open>
  What is left of \<^verbatim>\<open>reserved\<close> after the loop over \<open>n\<close> models: every model has taken
  \<open>512 * 512\<close> from the initial \<open>2 * n * 512 * 512 + 1024 * 1024 * 4\<close>.
\<close>

definition remainingReserved :: "nat \<Rightarrow> int" where
  "remainingReserved n = int n * 512 * 512 + 1024 * 1024 * 4"

text \<open>
  The loop's budget test for the \<open>i\<close>-th model processed, taken with the tier the model
  ends with: \<^verbatim>\<open>reserved\<close> has been lowered \<open>i + 1\<close> times and \<^verbatim>\<open>texSize\<close> holds the costs
  of the models before it.
\<close>

definition overBudget :: "entry list \<Rightarrow> nat \<Rightarrow> bool" where
  "overBudget models i =
     (let out = allocate models;
          reserved = 2 * int (length models) * 512 * 512 + 1024 * 1024 * 4 - (int i + 1) * 512 * 512
      in 16384 * 16384 - reserved < totalCost (take i out) + sizeMap (quality (out ! i)))"

section \<open>Apply loop and the whole pass of tick\<close>

text \<open>
  The body of the last loop for one model. \<^verbatim>\<open>!weight\<close> holds when the weight is 0.
\<close>

definition applyQuality :: "CVModel2 \<Rightarrow> EDerivativeQuality \<Rightarrow> real \<Rightarrow> CVModel2" where
  "applyQuality mdl q w =
     (let current = ins_quality mdl
      in if q = current then mdl
         else if current < q \<and> w = 0 then mdl
         else (case derivatives_select mdl q of
                 None \<Rightarrow> mdl
               | Some d \<Rightarrow> if d \<noteq> current then mdl\<lparr>ins_quality := d\<rparr> else mdl))"

fun applyLoop :: "entry list \<Rightarrow> CVModel2 list \<Rightarrow> CVModel2 list" where
  "applyLoop [] ms = ms"
| "applyLoop (e # es) ms =
     applyLoop es (ms[model e := applyQuality (ms ! model e) (quality e) (weight e)])"

text \<open>
  The level-of-detail pass inside \<^verbatim>\<open>tick\<close>. It runs when the navigation is enabled, a
  camera is active and \<^verbatim>\<open>controller.updateCamera\<close> reports an update.
\<close>

definition lodPass :: "CVModel2 list \<Rightarrow> CVModel2 list" where
  "lodPass ms = applyLoop (allocate (tickEntries ms)) ms"

section \<open>The pass of CVDerivativesController.tock\<close>

record tockEntry =
  t_model :: nat
  t_relSize :: real
  t_weight :: real

definition tockEntries :: "CVModel2 list \<Rightarrow> tockEntry list" where
  "tockEntries ms =
     map (\<lambda>(i, m). \<lparr>t_model = i, t_relSize = relSize_of (ndcBox (corners m)),
                     t_weight = tockWeight (ndcBox (corners m))\<rparr>) (enumerate 0 ms)"

definition rankQuality :: "nat \<Rightarrow> EDerivativeQuality" where
  "rankQuality i =
     (if i < 2 then High
      else if i < 5 then Medium
      else if i < 10 then Low
      else Thumb)"

text \<open>The loop body for the model at rank \<open>i\<close>: whether it changed, and the model.\<close>

definition tockModel :: "nat \<Rightarrow> CVModel2 \<Rightarrow> bool \<times> CVModel2" where
  "tockModel i mdl =
     (let current = ins_quality mdl;
          q = rankQuality i
      in if q = current then (False, mdl)
         else (case derivatives_select mdl q of
                 None \<Rightarrow> (False, mdl)
               | Some d \<Rightarrow> if d \<noteq> current then (True, mdl\<lparr>ins_quality := d\<rparr>)
                           else (False, mdl)))"

fun tockLoop :: "nat \<Rightarrow> tockEntry list \<Rightarrow> bool \<times> CVModel2 list \<Rightarrow> bool \<times> CVModel2 list" where
  "tockLoop i [] s = s"
| "tockLoop i (e # es) (changed, ms) =
     (let r = tockModel i (ms ! t_model e)
      in tockLoop (i + 1) es (changed \<or> fst r, ms[t_model e := snd r]))"

text \<open>\<^verbatim>\<open>.sort((a, b)=> b.weight - a.weight)\<close>: stable, descending.\<close>

definition tockSorted :: "CVModel2 list \<Rightarrow> tockEntry list" where
  "tockSorted ms = sort_key (\<lambda>e. - t_weight e) (tockEntries ms)"

definition tock :: "bool \<Rightarrow> bool \<Rightarrow> CVModel2 list \<Rightarrow> bool \<times> CVModel2 list" where
  "tock enabled cameraComponent ms =
     (if \<not> enabled \<or> \<not> cameraComponent then (False, ms)
      else tockLoop 0 (tockSorted ms) (False, ms))"

section \<open>Notions used to state the properties\<close>

text \<open>A box whose minimum does not exceed its maximum; the empty box counts.\<close>

fun wellFormed :: "Box3 \<Rightarrow> bool" where
  "wellFormed EmptyBox = True"
| "wellFormed (Box3 mn mx) = (vx mn \<le> vx mx \<and> vy mn \<le> vy mx \<and> vz mn \<le> vz mx)"

text \<open>Squared Euclidean distance of the box's centre from the NDC origin, on the screen.\<close>

definition centerDistSq :: "Box3 \<Rightarrow> real" where
  "centerDistSq b = vx (getCenter b) * vx (getCenter b) + vy (getCenter b) * vy (getCenter b)"

text \<open>The same distance in the sum norm and in the maximum norm.\<close>

definition centerDistL1 :: "Box3 \<Rightarrow> real" where
  "centerDistL1 b = \<bar>vx (getCenter b)\<bar> + \<bar>vy (getCenter b)\<bar>"

definition centerDistMax :: "Box3 \<Rightarrow> real" where
  "centerDistMax b = max \<bar>vx (getCenter b)\<bar> \<bar>vy (getCenter b)\<bar>"

text \<open>\<open>n\<close> frame weights that alternate, starting with \<open>a\<close>.\<close>

fun alternate :: "real \<Rightarrow> real \<Rightarrow> nat \<Rightarrow> real list" where
  "alternate a b 0 = []"
| "alternate a b (Suc n) = a # alternate b a n"

text \<open>
  The eight corners of a box, in the order in which \<^verbatim>\<open>tick\<close> and \<^verbatim>\<open>tock\<close> list them.
\<close>

definition boxCorners :: "Vector3 \<Rightarrow> Vector3 \<Rightarrow> Vector3 list" where
  "boxCorners mn mx =
     [\<lparr>vx = vx mn, vy = vy mn, vz = vz mn\<rparr>,
      \<lparr>vx = vx mx, vy = vy mn, vz = vz mn\<rparr>,
      \<lparr>vx = vx mx, vy = vy mx, vz = vz mn\<rparr>,
      \<lparr>vx = vx mx, vy = vy mx, vz = vz mx\<rparr>,
      \<lparr>vx = vx mn, vy = vy mx, vz = vz mx\<rparr>,
      \<lparr>vx = vx mn, vy = vy mn, vz = vz mx\<rparr>,
      \<lparr>vx = vx mx, vy = vy mn, vz = vz mx\<rparr>,
      \<lparr>vx = vx mn, vy = vy mx, vz = vz mn\<rparr>]"

text \<open>
  A scene of sixteen models. The first is at Thumb, covers [-31/100, 31/100] x [-1, 1] of
  the screen and has one derivative, of quality High, which the collaborator answers for
  every request. The other fifteen are at High, cover [-1/2, 1/2] x [-1, 1] and have a
  derivative of every quality.
\<close>

definition loneHigh :: CVModel2 where
  "loneHigh =
     \<lparr>ins_quality = Thumb,
      corners = boxCorners \<lparr>vx = -31/100, vy = -1, vz = -1/2\<rparr> \<lparr>vx = 31/100, vy = 1, vz = 1/2\<rparr>,
      derivatives_select = (\<lambda>q. Some High)\<rparr>"

definition fullModel :: CVModel2 where
  "fullModel =
     \<lparr>ins_quality = High,
      corners = boxCorners \<lparr>vx = -1/2, vy = -1, vz = -1/2\<rparr> \<lparr>vx = 1/2, vy = 1, vz = 1/2\<rparr>,
      derivatives_select = Some\<rparr>"

definition crowdedScene :: "CVModel2 list" where
  "crowdedScene = loneHigh # replicate 15 fullModel"

section \<open>Properties of the scorer\<close>

lemmas quality_order = less_eq_EDerivativeQuality_def less_EDerivativeQuality_def

lemma wellFormed_expandByPoint: "wellFormed b \<Longrightarrow> wellFormed (expandByPoint b p)"
  by (cases b) (auto simp: min_def max_def)

lemma wellFormed_foldl: "wellFormed b \<Longrightarrow> wellFormed (foldl expandByPoint b ps)"
  by (induction ps arbitrary: b) (simp_all add: wellFormed_expandByPoint)

lemma wellFormed_ndcBox: "wellFormed (ndcBox ps)"
  by (simp add: ndcBox_def makeEmpty_def wellFormed_foldl)

lemma depthWeight_range: "0 \<le> depthWeight a b \<and> depthWeight a b \<le> 1"
  by (auto simp add: depthWeight_def field_simps max_def min_def)

lemma boxDepthWeight_range: "0 \<le> boxDepthWeight b \<and> boxDepthWeight b \<le> 1"
  by (cases b) (simp_all add: depthWeight_range)

lemma maxCenterWeight_range: "0 \<le> maxCenterWeight b \<and> maxCenterWeight b \<le> 1"
  by (cases b) (auto simp: Let_def field_simps max_def)

lemma maxCenterWeight_pos: "b \<noteq> EmptyBox \<Longrightarrow> 0 < maxCenterWeight b"
  by (cases b) (auto simp: Let_def field_simps max_def)

lemma relSize_nonneg: "wellFormed b \<Longrightarrow> 0 \<le> relSize_of b"
  by (cases b) (auto simp: relSize_of_def)

lemma relSize_Empty: "relSize_of EmptyBox = 0"
  by (simp add: relSize_of_def)

lemma tickWeight_nonneg: "wellFormed b \<Longrightarrow> 0 \<le> tickWeight b"
  unfolding tickWeight_def
  using relSize_nonneg[of b] maxCenterWeight_range[of b] boxDepthWeight_range[of b]
  by simp

lemma tickWeight_zero: "tickWeight b = 0 \<longleftrightarrow> relSize_of b = 0 \<or> boxDepthWeight b = 0"
proof (cases "b = EmptyBox")
  case True
  then show ?thesis by (simp add: tickWeight_def relSize_Empty)
next
  case False
  then show ?thesis using maxCenterWeight_pos[of b] by (simp add: tickWeight_def)
qed

lemma tockWeight_zero: "tockWeight b = 0 \<longleftrightarrow> relSize_of b = 0 \<or> boxDepthWeight b = 0"
proof (cases "b = EmptyBox")
  case True
  then show ?thesis by (simp add: tockWeight_def relSize_Empty clampSize_def)
next
  case False
  then show ?thesis
    using maxCenterWeight_pos[of b] by (auto simp add: tockWeight_def clampSize_def min_def)
qed

lemma tockWeight_range: "wellFormed b \<Longrightarrow> 0 \<le> tockWeight b \<and> tockWeight b \<le> 1"
proof -
  assume wf: "wellFormed b"
  have c: "0 \<le> clampSize (relSize_of b) \<and> clampSize (relSize_of b) \<le> 1"
    using relSize_nonneg[OF wf] by (simp add: clampSize_def)
  have m: "0 \<le> maxCenterWeight b \<and> maxCenterWeight b \<le> 1"
    by (rule maxCenterWeight_range)
  have d: "0 \<le> boxDepthWeight b \<and> boxDepthWeight b \<le> 1"
    by (rule boxDepthWeight_range)
  have "clampSize (relSize_of b) * maxCenterWeight b \<le> 1"
    using c m by (simp add: mult_le_one)
  moreover have "0 \<le> clampSize (relSize_of b) * maxCenterWeight b"
    using c m by simp
  ultimately have "clampSize (relSize_of b) * maxCenterWeight b * boxDepthWeight b \<le> 1"
    using d by (simp add: mult_le_one)
  then show ?thesis using c m d by (simp add: tockWeight_def)
qed

text \<open>The depth range of the box built from a list of points.\<close>

lemma foldl_expand_nonempty: "foldl expandByPoint (Box3 mn mx) ps \<noteq> EmptyBox"
  by (induction ps arbitrary: mn mx) simp_all

lemma foldl_expand_behind:
  "vz mx < c \<Longrightarrow> \<forall>p\<in>set ps. vz p < c \<Longrightarrow> vz (box_max (foldl expandByPoint (Box3 mn mx) ps)) < c"
  by (induction ps arbitrary: mn mx) simp_all

lemma foldl_expand_beyond:
  "c < vz mn \<Longrightarrow> \<forall>p\<in>set ps. c < vz p \<Longrightarrow> c < vz (box_min (foldl expandByPoint (Box3 mn mx) ps))"
  by (induction ps arbitrary: mn mx) simp_all

lemma boxDepthWeight_outside:
  assumes "(\<forall>p\<in>set ps. vz p < -1) \<or> (\<forall>p\<in>set ps. 1 < vz p)"
  shows "boxDepthWeight (ndcBox ps) = 0"
proof (cases ps)
  case Nil
  then show ?thesis by (simp add: ndcBox_def makeEmpty_def)
next
  case (Cons p ps')
  define b where "b = foldl expandByPoint (Box3 p p) ps'"
  have nb: "ndcBox ps = b"
    by (simp add: Cons ndcBox_def makeEmpty_def b_def)
  obtain mn mx where b: "b = Box3 mn mx"
    using foldl_expand_nonempty[of p p ps'] by (cases b) (simp_all add: b_def)
  from assms show ?thesis
  proof
    assume a: "\<forall>p\<in>set ps. vz p < -1"
    have "vz (box_max b) < -1"
      unfolding b_def using a Cons by (intro foldl_expand_behind) simp_all
    then show ?thesis by (simp add: nb b depthWeight_def)
  next
    assume a: "\<forall>p\<in>set ps. 1 < vz p"
    have "1 < vz (box_min b)"
      unfolding b_def using a Cons by (intro foldl_expand_beyond) simp_all
    then show ?thesis by (simp add: nb b depthWeight_def)
  qed
qed

lemma boxDepthWeight_inside:
  assumes "ps \<noteq> []" and "\<forall>p\<in>set ps. -1 < vz p \<and> vz p < 1"
  shows "boxDepthWeight (ndcBox ps) = 1"
proof -
  from assms(1) obtain p ps' where ps: "ps = p # ps'" by (cases ps) simp_all
  define b where "b = foldl expandByPoint (Box3 p p) ps'"
  have nb: "ndcBox ps = b"
    by (simp add: ps ndcBox_def makeEmpty_def b_def)
  obtain mn mx where b: "b = Box3 mn mx"
    using foldl_expand_nonempty[of p p ps'] by (cases b) (simp_all add: b_def)
  have lo: "-1 < vz (box_min b)"
    unfolding b_def using assms(2) ps by (intro foldl_expand_beyond) simp_all
  have hi: "vz (box_max b) < 1"
    unfolding b_def using assms(2) ps by (intro foldl_expand_behind) simp_all
  have "wellFormed b" using wellFormed_ndcBox[of ps] by (simp add: nb)
  then have "vz mn \<le> vz mx" by (simp add: b)
  then show ?thesis using lo hi by (simp add: nb b depthWeight_def)
qed

lemma weight_zero_inside:
  assumes "\<forall>p\<in>set ps. -1 < vz p \<and> vz p < 1"
  shows "(tickWeight (ndcBox ps) = 0 \<longleftrightarrow> relSize_of (ndcBox ps) = 0)
       \<and> (tockWeight (ndcBox ps) = 0 \<longleftrightarrow> relSize_of (ndcBox ps) = 0)"
proof (cases "ps = []")
  case True
  then show ?thesis
    by (simp add: ndcBox_def makeEmpty_def tickWeight_def tockWeight_def relSize_Empty clampSize_def)
next
  case False
  then have "boxDepthWeight (ndcBox ps) = 1" using assms by (rule boxDepthWeight_inside)
  then show ?thesis
    using tickWeight_zero[of "ndcBox ps"] tockWeight_zero[of "ndcBox ps"] by simp
qed

lemma tickWeight_le_one:
  assumes "relSize_of (ndcBox ps) \<le> 1"
  shows "tickWeight (ndcBox ps) \<le> 1"
proof -
  have "clampSize (relSize_of (ndcBox ps)) = relSize_of (ndcBox ps)"
    using assms by (simp add: clampSize_def)
  then have "tickWeight (ndcBox ps) = tockWeight (ndcBox ps)"
    by (simp add: tickWeight_def tockWeight_def)
  then show ?thesis using tockWeight_range[OF wellFormed_ndcBox, of ps] by simp
qed

text \<open>
  C2, as the code has it. For every box built from projected corners the weight is not
  negative; it is at most 1 in \<^verbatim>\<open>tock\<close>, which clamps the relative size, and in
  \<^verbatim>\<open>tick\<close> whenever the relative size is at most 1. The weight is 0 when all corners
  lie before the near plane, or all beyond the far plane, or the box has no width or no
  height. For a box whose corners all lie strictly inside the depth range the weight is 0
  exactly when the box has no width or no height, wherever the box lies in x and y: the
  centredness factor is never 0, so being off screen does not make the weight 0. Boxes that
  touch or cross a clip plane are left out.
\<close>

theorem scorer_weight_bounds:
  "0 \<le> tickWeight (ndcBox ps)
   \<and> 0 \<le> tockWeight (ndcBox ps) \<and> tockWeight (ndcBox ps) \<le> 1
   \<and> (relSize_of (ndcBox ps) \<le> 1 \<longrightarrow> tickWeight (ndcBox ps) \<le> 1)
   \<and> ((\<forall>p\<in>set ps. vz p < -1) \<or> (\<forall>p\<in>set ps. 1 < vz p) \<or> relSize_of (ndcBox ps) = 0 \<longrightarrow>
        tickWeight (ndcBox ps) = 0 \<and> tockWeight (ndcBox ps) = 0)
   \<and> ((\<forall>p\<in>set ps. -1 < vz p \<and> vz p < 1) \<longrightarrow>
        (tickWeight (ndcBox ps) = 0 \<longleftrightarrow> relSize_of (ndcBox ps) = 0)
        \<and> (tockWeight (ndcBox ps) = 0 \<longleftrightarrow> relSize_of (ndcBox ps) = 0))"
proof -
  have z: "tickWeight (ndcBox ps) = 0 \<and> tockWeight (ndcBox ps) = 0"
    if "(\<forall>p\<in>set ps. vz p < -1) \<or> (\<forall>p\<in>set ps. 1 < vz p) \<or> relSize_of (ndcBox ps) = 0"
  proof -
    from that have "relSize_of (ndcBox ps) = 0 \<or> boxDepthWeight (ndcBox ps) = 0"
      using boxDepthWeight_outside[of ps] by blast
    then show ?thesis
      using tickWeight_zero[of "ndcBox ps"] tockWeight_zero[of "ndcBox ps"] by simp
  qed
  show ?thesis
    using tickWeight_nonneg[OF wellFormed_ndcBox, of ps] tockWeight_range[OF wellFormed_ndcBox, of ps]
      tickWeight_le_one[of ps] z weight_zero_inside[of ps]
    by blast
qed

theorem scorer_weight_bounds_witness:
  "1 < vz \<lparr>vx = 0, vy = 0, vz = 2\<rparr> \<and> 1 < vz \<lparr>vx = 1, vy = 1, vz = 3\<rparr>
   \<and> tickWeight (ndcBox [\<lparr>vx = 0, vy = 0, vz = 2\<rparr>, \<lparr>vx = 1, vy = 1, vz = 3\<rparr>]) = 0
   \<and> tockWeight (ndcBox [\<lparr>vx = 0, vy = 0, vz = 2\<rparr>, \<lparr>vx = 1, vy = 1, vz = 3\<rparr>]) = 0
   \<and> -1 < vz \<lparr>vx = 5/2, vy = -1/2, vz = -1/2\<rparr> \<and> vz \<lparr>vx = 5/2, vy = -1/2, vz = -1/2\<rparr> < 1
   \<and> -1 < vz \<lparr>vx = 7/2, vy = 1/2, vz = 1/2\<rparr> \<and> vz \<lparr>vx = 7/2, vy = 1/2, vz = 1/2\<rparr> < 1
   \<and> relSize_of (ndcBox [\<lparr>vx = 5/2, vy = -1/2, vz = -1/2\<rparr>, \<lparr>vx = 7/2, vy = 1/2, vz = 1/2\<rparr>]) = 1/4
   \<and> tickWeight (ndcBox [\<lparr>vx = 5/2, vy = -1/2, vz = -1/2\<rparr>, \<lparr>vx = 7/2, vy = 1/2, vz = 1/2\<rparr>]) \<noteq> 0
   \<and> tockWeight (ndcBox [\<lparr>vx = 5/2, vy = -1/2, vz = -1/2\<rparr>, \<lparr>vx = 7/2, vy = 1/2, vz = 1/2\<rparr>]) \<noteq> 0
   \<and> tickWeight (ndcBox [\<lparr>vx = 5/2, vy = -1/2, vz = -1/2\<rparr>, \<lparr>vx = 7/2, vy = 1/2, vz = 1/2\<rparr>]) \<le> 1"
proof -
  define far where "far = [\<lparr>vx = 0, vy = 0, vz = 2\<rparr>, \<lparr>vx = 1, vy = 1, vz = 3\<rparr>]"
  define off where "off = [\<lparr>vx = 5/2, vy = -1/2, vz = -1/2\<rparr>, \<lparr>vx = 7/2, vy = 1/2, vz = 1/2\<rparr>]"
  have h1: "\<forall>p\<in>set far. 1 < vz p"
    by (simp add: far_def)
  have h2: "\<forall>p\<in>set off. -1 < vz p \<and> vz p < 1"
    by (simp add: off_def)
  have r: "relSize_of (ndcBox off) = 1/4"
    by (simp add: off_def ndcBox_def makeEmpty_def relSize_of_def)
  then have h3: "relSize_of (ndcBox off) \<le> 1" and h4: "relSize_of (ndcBox off) \<noteq> 0"
    by simp_all
  have "tickWeight (ndcBox far) = 0 \<and> tockWeight (ndcBox far) = 0"
    using scorer_weight_bounds[of far] h1 by blast
  moreover have "tickWeight (ndcBox off) \<noteq> 0 \<and> tockWeight (ndcBox off) \<noteq> 0
      \<and> tickWeight (ndcBox off) \<le> 1"
    using scorer_weight_bounds[of off] h2 h3 h4 by blast
  ultimately have "tickWeight (ndcBox far) = 0 \<and> tockWeight (ndcBox far) = 0
      \<and> relSize_of (ndcBox off) = 1/4
      \<and> tickWeight (ndcBox off) \<noteq> 0 \<and> tockWeight (ndcBox off) \<noteq> 0
      \<and> tickWeight (ndcBox off) \<le> 1"
    using r by blast
  then show ?thesis
    unfolding far_def off_def by simp
qed

text \<open>
  C2 as stated fails in three ways. The box with x in [5/2, 7/2], y and z in [-1/2, 1/2]
  lies entirely beyond x = 2 and has weight 1/14 in \<^verbatim>\<open>tick\<close>. The box with x and y in
  [-2, 2] has weight 4 there. The box with x and y in [-1/2, 1/2] and z in [-1/2, 3/2] is
  centred on the screen, covers a quarter of it and reaches across the far plane; it is
  visible, and its weight is 0 in both implementations.
\<close>

theorem scorer_weight_counterexample:
  "tickWeight (ndcBox [\<lparr>vx = 5/2, vy = -1/2, vz = -1/2\<rparr>, \<lparr>vx = 7/2, vy = 1/2, vz = 1/2\<rparr>]) = 1/14
   \<and> tickWeight (ndcBox [\<lparr>vx = -2, vy = -2, vz = -1/2\<rparr>, \<lparr>vx = 2, vy = 2, vz = 1/2\<rparr>]) = 4
   \<and> relSize_of (ndcBox [\<lparr>vx = -1/2, vy = -1/2, vz = -1/2\<rparr>, \<lparr>vx = 1/2, vy = 1/2, vz = 3/2\<rparr>]) = 1/4
   \<and> maxCenterWeight (ndcBox [\<lparr>vx = -1/2, vy = -1/2, vz = -1/2\<rparr>, \<lparr>vx = 1/2, vy = 1/2, vz = 3/2\<rparr>]) = 1
   \<and> tickWeight (ndcBox [\<lparr>vx = -1/2, vy = -1/2, vz = -1/2\<rparr>, \<lparr>vx = 1/2, vy = 1/2, vz = 3/2\<rparr>]) = 0
   \<and> tockWeight (ndcBox [\<lparr>vx = -1/2, vy = -1/2, vz = -1/2\<rparr>, \<lparr>vx = 1/2, vy = 1/2, vz = 3/2\<rparr>]) = 0"
  by (simp add: ndcBox_def makeEmpty_def tickWeight_def tockWeight_def relSize_of_def depthWeight_def
      clampSize_def)

text \<open>
  C3, as the code has it: \<open>depthWeight 2 3\<close> is 0, \<open>depthWeight (3/2) (5/2)\<close> is 0 as
  well, the box lying entirely beyond the far plane, and the value is 1 for a box strictly
  inside the depth range.
\<close>

theorem depthWeight_boundary:
  "depthWeight 2 3 = 0 \<and> depthWeight (3/2) (5/2) = 0
   \<and> (-1 < mn \<and> mn \<le> mx \<and> mx < 1 \<longrightarrow> depthWeight mn mx = 1)"
  by (simp add: depthWeight_def)

theorem depthWeight_boundary_witness:
  "-1 < (-1/2 :: real) \<and> (-1/2 :: real) \<le> 1/2 \<and> (1/2 :: real) < 1 \<and> depthWeight (-1/2) (1/2) = 1"
  using depthWeight_boundary[of "-1/2" "1/2"] by simp

text \<open>
  C3 as stated fails: at (-1, 1) the code returns 0, not 1, and at (3/2, 5/2) it returns 0,
  which is not strictly positive.
\<close>

theorem depthWeight_boundary_counterexample:
  "depthWeight (-1) 1 = 0 \<and> depthWeight (3/2) (5/2) = 0"
  by (simp add: depthWeight_def)

text \<open>
  C9, as the code has it: of two boxes of the same width and height, the one whose centre
  is at least as close to the origin on each axis has the greater or equal
  \<^verbatim>\<open>maxCenterWeight\<close>.
\<close>

theorem maxCenterWeight_monotone:
  assumes "wellFormed (Box3 amn amx)" and "wellFormed (Box3 bmn bmx)"
    and "vx (getSize (Box3 amn amx)) = vx (getSize (Box3 bmn bmx))"
    and "vy (getSize (Box3 amn amx)) = vy (getSize (Box3 bmn bmx))"
    and "\<bar>vx (getCenter (Box3 amn amx))\<bar> \<le> \<bar>vx (getCenter (Box3 bmn bmx))\<bar>"
    and "\<bar>vy (getCenter (Box3 amn amx))\<bar> \<le> \<bar>vy (getCenter (Box3 bmn bmx))\<bar>"
  shows "maxCenterWeight (Box3 bmn bmx) \<le> maxCenterWeight (Box3 amn amx)"
  using assms
  apply (simp add: Let_def)
  apply (rule divide_left_mono)
    apply (auto simp: max_def abs_if split: if_splits)
  done

theorem maxCenterWeight_monotone_witness:
  "wellFormed (Box3 \<lparr>vx = 0, vy = 0, vz = 0\<rparr> \<lparr>vx = 1, vy = 1, vz = 0\<rparr>)
   \<and> wellFormed (Box3 \<lparr>vx = 1, vy = 1, vz = 0\<rparr> \<lparr>vx = 2, vy = 2, vz = 0\<rparr>)
   \<and> maxCenterWeight (Box3 \<lparr>vx = 1, vy = 1, vz = 0\<rparr> \<lparr>vx = 2, vy = 2, vz = 0\<rparr>)
       \<le> maxCenterWeight (Box3 \<lparr>vx = 0, vy = 0, vz = 0\<rparr> \<lparr>vx = 1, vy = 1, vz = 0\<rparr>)"
  using maxCenterWeight_monotone[of "\<lparr>vx = 0, vy = 0, vz = 0\<rparr>" "\<lparr>vx = 1, vy = 1, vz = 0\<rparr>"
      "\<lparr>vx = 1, vy = 1, vz = 0\<rparr>" "\<lparr>vx = 2, vy = 2, vz = 0\<rparr>"]
  by simp

text \<open>
  C9 as stated fails. The boxes [7/10, 9/10] x [7/10, 9/10] and [11/10, 13/10] x [-1/10, 1/10]
  have the same size, the first centre is closer to the origin in the Euclidean and in the
  maximum norm, and the first box has the smaller \<^verbatim>\<open>maxCenterWeight\<close>. The boxes
  [1/2, 3/2] x [-1/2, 1/2] and [1/20, 21/20] x [1/20, 21/20] have the same size, the first
  centre is closer in the sum norm, and again the first box has the smaller value.
\<close>

theorem maxCenterWeight_monotone_counterexample:
  "getSize (Box3 \<lparr>vx = 7/10, vy = 7/10, vz = 0\<rparr> \<lparr>vx = 9/10, vy = 9/10, vz = 0\<rparr>)
     = getSize (Box3 \<lparr>vx = 11/10, vy = -1/10, vz = 0\<rparr> \<lparr>vx = 13/10, vy = 1/10, vz = 0\<rparr>)
   \<and> centerDistSq (Box3 \<lparr>vx = 7/10, vy = 7/10, vz = 0\<rparr> \<lparr>vx = 9/10, vy = 9/10, vz = 0\<rparr>)
     < centerDistSq (Box3 \<lparr>vx = 11/10, vy = -1/10, vz = 0\<rparr> \<lparr>vx = 13/10, vy = 1/10, vz = 0\<rparr>)
   \<and> centerDistMax (Box3 \<lparr>vx = 7/10, vy = 7/10, vz = 0\<rparr> \<lparr>vx = 9/10, vy = 9/10, vz = 0\<rparr>)
     < centerDistMax (Box3 \<lparr>vx = 11/10, vy = -1/10, vz = 0\<rparr> \<lparr>vx = 13/10, vy = 1/10, vz = 0\<rparr>)
   \<and> maxCenterWeight (Box3 \<lparr>vx = 7/10, vy = 7/10, vz = 0\<rparr> \<lparr>vx = 9/10, vy = 9/10, vz = 0\<rparr>)
     < maxCenterWeight (Box3 \<lparr>vx = 11/10, vy = -1/10, vz = 0\<rparr> \<lparr>vx = 13/10, vy = 1/10, vz = 0\<rparr>)
   \<and> getSize (Box3 \<lparr>vx = 1/2, vy = -1/2, vz = 0\<rparr> \<lparr>vx = 3/2, vy = 1/2, vz = 0\<rparr>)
     = getSize (Box3 \<lparr>vx = 1/20, vy = 1/20, vz = 0\<rparr> \<lparr>vx = 21/20, vy = 21/20, vz = 0\<rparr>)
   \<and> centerDistL1 (Box3 \<lparr>vx = 1/2, vy = -1/2, vz = 0\<rparr> \<lparr>vx = 3/2, vy = 1/2, vz = 0\<rparr>)
     < centerDistL1 (Box3 \<lparr>vx = 1/20, vy = 1/20, vz = 0\<rparr> \<lparr>vx = 21/20, vy = 21/20, vz = 0\<rparr>)
   \<and> maxCenterWeight (Box3 \<lparr>vx = 1/2, vy = -1/2, vz = 0\<rparr> \<lparr>vx = 3/2, vy = 1/2, vz = 0\<rparr>)
     < maxCenterWeight (Box3 \<lparr>vx = 1/20, vy = 1/20, vz = 0\<rparr> \<lparr>vx = 21/20, vy = 21/20, vz = 0\<rparr>)"
  by (simp add: centerDistSq_def centerDistL1_def centerDistMax_def)

section \<open>Properties of the classifier\<close>

text \<open>
  C4, as the code has it: for every step, current tier and weight, the result is at or
  below the step's tier exactly when the weight is below the step's threshold, raised by the
  margin exactly when the current tier is at or below the step's tier. A model stays in its
  tier or a lower one until the weight passes the raised threshold (upgrades are dampened),
  and falls to a tier below its current one as soon as the weight is below the plain
  threshold.
\<close>

theorem hysteresis_direction:
  "(t, q) \<in> set steps \<Longrightarrow>
   getQuality c w \<le> q \<longleftrightarrow> w < (if c \<le> q then t + hyst else t)"
  by (cases c) (auto simp add: getQuality_def steps_def hyst_def quality_order)

theorem hysteresis_direction_witness:
  "(1/10, Low) \<in> set steps
   \<and> (getQuality Medium (11/100) \<le> Low \<longleftrightarrow> (11/100 :: real) < (if Medium \<le> Low then 1/10 + hyst else 1/10))
   \<and> (getQuality Low (11/100) \<le> Low \<longleftrightarrow> (11/100 :: real) < (if Low \<le> Low then 1/10 + hyst else 1/10))"
  using hysteresis_direction[of "1/10" Low Medium "11/100"]
    hysteresis_direction[of "1/10" Low Low "11/100"]
  by (simp add: steps_def)

text \<open>
  C4 as stated fails: with current tier Medium and weight 11/100 the code compares against
  the plain threshold of the Low step (a tier below the current one) and answers Medium; with
  the margin on steps at or below the current tier the answer would be Low.
\<close>

theorem hysteresis_direction_counterexample:
  "getQuality Medium (11/100) = Medium \<and> getQuality_spec Medium (11/100) = Low"
  by (simp add: getQuality_def getQuality_spec_def steps_def hyst_def quality_order)

lemma getQuality_Low_near_boundary:
  "w = 95/1000 \<or> w = 105/1000 \<Longrightarrow> getQuality Low w = Low"
  by (auto simp add: getQuality_def steps_def hyst_def quality_order)

lemma runFrames_Low: "\<forall>w\<in>set ws. w = 95/1000 \<or> w = 105/1000 \<Longrightarrow> runFrames Low ws = Low"
  by (induction ws) (simp_all add: runFrames_def getQuality_Low_near_boundary)

lemma set_alternate: "set (alternate a b n) \<subseteq> {a, b}"
  by (induction a b n rule: alternate.induct) auto

lemma runFrames_Cons: "runFrames c (w # ws) = runFrames (getQuality c w) ws"
  by (simp add: runFrames_def)

text \<open>
  C5, as the code has it: from Medium, with weights alternating between 0.095 and 0.105, the
  tier falls to Low at the first frame of weight 0.095 and is Low after every later frame;
  it changes once and does not oscillate.
\<close>

theorem hysteresis_settles:
  "runFrames Medium (alternate (95/1000) (105/1000) (Suc n)) = Low
   \<and> runFrames Medium (alternate (105/1000) (95/1000) (Suc 0)) = Medium
   \<and> runFrames Medium (alternate (105/1000) (95/1000) (Suc (Suc n))) = Low"
proof -
  have m1: "getQuality Medium (95/1000) = Low"
    by (simp add: getQuality_def steps_def hyst_def quality_order)
  have m2: "getQuality Medium (105/1000) = Medium"
    by (simp add: getQuality_def steps_def hyst_def quality_order)
  have r: "runFrames Low (alternate a b k) = Low"
    if "{a, b} \<subseteq> {95/1000, 105/1000}" for a b k
    using that set_alternate[of a b k] by (intro runFrames_Low) auto
  have e: "runFrames c [] = c" for c
    by (simp add: runFrames_def)
  have "runFrames Medium (alternate (95/1000) (105/1000) (Suc n)) = Low"
    by (simp only: alternate.simps runFrames_Cons m1) (rule r, simp)
  moreover have "runFrames Medium (alternate (105/1000) (95/1000) (Suc 0)) = Medium"
    by (simp only: alternate.simps runFrames_Cons m2 e)
  moreover have "runFrames Medium (alternate (105/1000) (95/1000) (Suc (Suc n))) = Low"
    by (simp only: alternate.simps runFrames_Cons m1 m2) (rule r, simp)
  ultimately show ?thesis
    by (intro conjI)
qed

text \<open>C5 as stated fails: the first frame of weight 0.095 takes the tier from Medium to Low.\<close>

theorem hysteresis_stability_counterexample:
  "runFrames Medium [95/1000] = Low"
  by (simp add: runFrames_def getQuality_def steps_def hyst_def quality_order)

section \<open>Properties of the budget allocator\<close>

lemma sizeMap_ge: "512 * 512 \<le> sizeMap q"
  by (cases q) simp_all

lemma decrement_le: "decrement q \<le> q"
  by (cases q) (simp_all add: quality_order)

lemma downgrade_step:
  "16384 * 16384 - r < t + sizeMap q \<Longrightarrow> Thumb < q \<Longrightarrow>
   downgrade r t q = downgrade r t (decrement q)"
  by (subst downgrade.simps) simp

lemma downgrade_stop:
  "\<not> (16384 * 16384 - r < t + sizeMap q \<and> Thumb < q) \<Longrightarrow> downgrade r t q = q"
  by (subst downgrade.simps) auto

lemma totalCost_Cons: "totalCost (e # es) = sizeMap (quality e) + totalCost es"
  by (simp add: totalCost_def)

lemma downgrade_le: "downgrade r t q \<le> q"
proof (induction r t q rule: downgrade.induct)
  case (1 reserved texSize q)
  show ?case
  proof (cases "16384 * 16384 - reserved < texSize + sizeMap q \<and> Thumb < q")
    case True
    then have "downgrade reserved texSize q = downgrade reserved texSize (decrement q)"
      by (simp add: downgrade_step)
    moreover have "downgrade reserved texSize (decrement q) \<le> decrement q"
      using "1.IH" True by simp
    ultimately show ?thesis using decrement_le[of q] by simp
  next
    case False
    then show ?thesis by (simp add: downgrade_stop)
  qed
qed

lemma downgrade_exit:
  "16384 * 16384 - r < t + sizeMap (downgrade r t q) \<Longrightarrow> downgrade r t q = Thumb"
proof (induction r t q rule: downgrade.induct)
  case (1 reserved texSize q)
  show ?case
  proof (cases "16384 * 16384 - reserved < texSize + sizeMap q \<and> Thumb < q")
    case True
    then have eq: "downgrade reserved texSize q = downgrade reserved texSize (decrement q)"
      by (simp add: downgrade_step)
    show ?thesis using "1.IH"[OF True] "1.prems" eq by simp
  next
    case False
    then have eq: "downgrade reserved texSize q = q" by (rule downgrade_stop)
    with "1.prems" False have "\<not> Thumb < q" by simp
    then have "q = Thumb" by (cases q) (simp_all add: quality_order)
    with eq show ?thesis by simp
  qed
qed

lemma downgrade_all_over:
  "16384 * 16384 - r < t + 512 * 512 \<Longrightarrow> downgrade r t q = Thumb"
proof -
  assume a: "16384 * 16384 - r < t + 512 * 512"
  have "16384 * 16384 - r < t + sizeMap (downgrade r t q)"
    using a sizeMap_ge[of "downgrade r t q"] by linarith
  then show ?thesis by (rule downgrade_exit)
qed

lemma budgetLoop_feasible:
  "t \<le> 16384 * 16384 - r \<Longrightarrow>
   t + totalCost (budgetLoop r t ms) \<le> 16384 * 16384 - (r - int (length ms) * 512 * 512)"
proof (induction ms arbitrary: r t)
  case Nil
  then show ?case by (simp add: totalCost_def)
next
  case (Cons m ms)
  define r' where "r' = r - 512 * 512"
  define q where "q = downgrade r' t (quality m)"
  have fit: "t + sizeMap q \<le> 16384 * 16384 - r'"
  proof (cases "16384 * 16384 - r' < t + sizeMap q")
    case True
    then have "q = Thumb" unfolding q_def by (rule downgrade_exit)
    then show ?thesis using Cons.prems by (simp add: r'_def)
  next
    case False
    then show ?thesis by simp
  qed
  have unf: "budgetLoop r t (m # ms) = m\<lparr>quality := q\<rparr> # budgetLoop r' (t + sizeMap q) ms"
    by (simp add: Let_def r'_def q_def)
  have "t + sizeMap q + totalCost (budgetLoop r' (t + sizeMap q) ms)
      \<le> 16384 * 16384 - (r' - int (length ms) * 512 * 512)"
    by (rule Cons.IH[OF fit])
  then show ?case
    unfolding unf totalCost_Cons by (simp add: r'_def algebra_simps)
qed

lemma budgetLoop_infeasible:
  "16384 * 16384 - r < t \<Longrightarrow> list_all (\<lambda>e. quality e = Thumb) (budgetLoop r t ms)"
proof (induction ms arbitrary: r t)
  case Nil
  then show ?case by simp
next
  case (Cons m ms)
  have q: "downgrade (r - 512 * 512) t (quality m) = Thumb"
    using Cons.prems by (intro downgrade_all_over) simp
  have "list_all (\<lambda>e. quality e = Thumb) (budgetLoop (r - 512 * 512) (t + sizeMap Thumb) ms)"
    using Cons.prems by (intro Cons.IH) simp
  then show ?case using q by (simp add: Let_def)
qed

lemma budgetLoop_step_exit:
  "i < length ms \<Longrightarrow>
   16384 * 16384 - (r - (int i + 1) * 512 * 512)
     < t + totalCost (take i (budgetLoop r t ms)) + sizeMap (quality (budgetLoop r t ms ! i)) \<Longrightarrow>
   quality (budgetLoop r t ms ! i) = Thumb"
proof (induction ms arbitrary: r t i)
  case Nil
  then show ?case by simp
next
  case (Cons m ms)
  define r' where "r' = r - 512 * 512"
  define q where "q = downgrade r' t (quality m)"
  have unf: "budgetLoop r t (m # ms) = m\<lparr>quality := q\<rparr> # budgetLoop r' (t + sizeMap q) ms"
    by (simp add: Let_def r'_def q_def)
  show ?case
  proof (cases i)
    case 0
    with Cons.prems(2) unf have "16384 * 16384 - r' < t + sizeMap q"
      by (simp add: totalCost_def r'_def)
    then have "q = Thumb" unfolding q_def by (rule downgrade_exit)
    with 0 unf show ?thesis by simp
  next
    case (Suc j)
    have j: "j < length ms" using Cons.prems Suc by simp
    have "16384 * 16384 - (r' - (int j + 1) * 512 * 512)
        < (t + sizeMap q) + totalCost (take j (budgetLoop r' (t + sizeMap q) ms))
          + sizeMap (quality (budgetLoop r' (t + sizeMap q) ms ! j))"
      using Cons.prems(2) unfolding unf Suc by (simp add: totalCost_Cons r'_def algebra_simps)
    from Cons.IH[OF j this] show ?thesis using unf Suc by simp
  qed
qed

lemma budgetLoop_downgrade_only:
  "list_all2 (\<lambda>m m'. model m' = model m \<and> weight m' = weight m \<and> relSize m' = relSize m
       \<and> quality m' \<le> quality m \<and> Thumb \<le> quality m') ms (budgetLoop r t ms)"
proof (induction ms arbitrary: r t)
  case Nil
  then show ?case by simp
next
  case (Cons m ms)
  have "Thumb \<le> downgrade (r - 512 * 512) t (quality m)"
    by (cases "downgrade (r - 512 * 512) t (quality m)") (simp_all add: quality_order)
  then show ?case using Cons.IH downgrade_le by (simp add: Let_def)
qed

text \<open>
  C1. When the model count times the Thumb cost plus what remains reserved after the pass
  fits in 16384 * 16384, the costs of the assigned tiers sum to at most 16384 * 16384 minus
  that remaining reservation. When it does not fit, every model ends at Thumb. In either
  case a model for which the loop's budget test still holds at its final tier is at Thumb.
  The pass is a total function: there is no error to raise.
\<close>

theorem budget_satisfaction:
  "(int (length es) * sizeMap Thumb + remainingReserved (length es) \<le> 16384 * 16384 \<longrightarrow>
      totalCost (allocate es) \<le> 16384 * 16384 - remainingReserved (length es))
   \<and> (\<not> int (length es) * sizeMap Thumb + remainingReserved (length es) \<le> 16384 * 16384 \<longrightarrow>
      list_all (\<lambda>e. quality e = Thumb) (allocate es))
   \<and> (\<forall>i < length es. overBudget es i \<longrightarrow> quality (allocate es ! i) = Thumb)"
proof (intro conjI impI allI)
  assume f: "int (length es) * sizeMap Thumb + remainingReserved (length es) \<le> 16384 * 16384"
  let ?r = "2 * int (length (sort_key weight es)) * 512 * 512 + 1024 * 1024 * 4"
  have "0 \<le> 16384 * 16384 - ?r" using f by (simp add: remainingReserved_def)
  from budgetLoop_feasible[OF this, of "sort_key weight es"]
  show "totalCost (allocate es) \<le> 16384 * 16384 - remainingReserved (length es)"
    by (simp add: allocate_def Let_def remainingReserved_def)
next
  assume f: "\<not> int (length es) * sizeMap Thumb + remainingReserved (length es) \<le> 16384 * 16384"
  let ?r = "2 * int (length (sort_key weight es)) * 512 * 512 + 1024 * 1024 * 4"
  have "16384 * 16384 - ?r < 0" using f by (simp add: remainingReserved_def)
  from budgetLoop_infeasible[OF this, of "sort_key weight es"]
  show "list_all (\<lambda>e. quality e = Thumb) (allocate es)"
    by (simp add: allocate_def Let_def)
next
  fix i assume i: "i < length es" and o: "overBudget es i"
  let ?r = "2 * int (length (sort_key weight es)) * 512 * 512 + 1024 * 1024 * 4"
  have i': "i < length (sort_key weight es)" using i by simp
  have "16384 * 16384 - (?r - (int i + 1) * 512 * 512)
     < 0 + totalCost (take i (budgetLoop ?r 0 (sort_key weight es)))
       + sizeMap (quality (budgetLoop ?r 0 (sort_key weight es) ! i))"
    using o by (simp add: overBudget_def allocate_def Let_def)
  from budgetLoop_step_exit[OF i' this]
  show "quality (allocate es ! i) = Thumb"
    by (simp add: allocate_def Let_def)
qed

theorem budget_satisfaction_witness:
  "int (length [\<lparr>model = 0, weight = 1/2, relSize = 1/2, quality = High\<rparr>,
                \<lparr>model = 1, weight = 1/10, relSize = 1/10, quality = Medium\<rparr>]) * sizeMap Thumb
     + remainingReserved (length [\<lparr>model = 0, weight = 1/2, relSize = 1/2, quality = High\<rparr>,
                \<lparr>model = 1, weight = 1/10, relSize = 1/10, quality = Medium\<rparr>]) \<le> 16384 * 16384
   \<and> totalCost (allocate [\<lparr>model = 0, weight = 1/2, relSize = 1/2, quality = High\<rparr>,
                \<lparr>model = 1, weight = 1/10, relSize = 1/10, quality = Medium\<rparr>])
       \<le> 16384 * 16384 - remainingReserved (length [\<lparr>model = 0, weight = 1/2, relSize = 1/2, quality = High\<rparr>,
                \<lparr>model = 1, weight = 1/10, relSize = 1/10, quality = Medium\<rparr>])
   \<and> \<not> int (length (replicate 505 \<lparr>model = 0, weight = 1/2, relSize = 1/2, quality = High\<rparr>)) * sizeMap Thumb
       + remainingReserved (length (replicate 505 \<lparr>model = 0, weight = 1/2, relSize = 1/2, quality = High\<rparr>))
       \<le> 16384 * 16384
   \<and> list_all (\<lambda>e. quality e = Thumb)
        (allocate (replicate 505 \<lparr>model = 0, weight = 1/2, relSize = 1/2, quality = High\<rparr>))
   \<and> 0 < length (replicate 505 \<lparr>model = 0, weight = 1/2, relSize = 1/2, quality = High\<rparr>)
   \<and> overBudget (replicate 505 \<lparr>model = 0, weight = 1/2, relSize = 1/2, quality = High\<rparr>) 0
   \<and> quality (allocate (replicate 505 \<lparr>model = 0, weight = 1/2, relSize = 1/2, quality = High\<rparr>) ! 0) = Thumb"
proof -
  define small where "small = [\<lparr>model = 0, weight = 1/2, relSize = 1/2, quality = High\<rparr>,
                \<lparr>model = 1, weight = 1/10, relSize = 1/10, quality = Medium\<rparr>]"
  define big where "big = replicate 505 \<lparr>model = 0, weight = 1/2, relSize = 1/2, quality = High\<rparr>"
  have ls: "length small = 2" by (simp add: small_def)
  have lb: "length big = 505" by (simp add: big_def)
  have h1: "int (length small) * sizeMap Thumb + remainingReserved (length small) \<le> 16384 * 16384"
    by (simp add: ls remainingReserved_def)
  have h2: "\<not> int (length big) * sizeMap Thumb + remainingReserved (length big) \<le> 16384 * 16384"
    by (simp add: lb remainingReserved_def)
  have h3: "overBudget big 0"
    using sizeMap_ge[of "quality (allocate big ! 0)"]
    by (simp add: overBudget_def Let_def totalCost_def lb)
  have h4: "0 < length big" by (simp add: lb)
  have "int (length small) * sizeMap Thumb + remainingReserved (length small) \<le> 16384 * 16384
     \<and> totalCost (allocate small) \<le> 16384 * 16384 - remainingReserved (length small)
     \<and> \<not> int (length big) * sizeMap Thumb + remainingReserved (length big) \<le> 16384 * 16384
     \<and> list_all (\<lambda>e. quality e = Thumb) (allocate big)
     \<and> 0 < length big \<and> overBudget big 0 \<and> quality (allocate big ! 0) = Thumb"
    using budget_satisfaction[of small] budget_satisfaction[of big] h1 h2 h3 h4 by blast
  then show ?thesis unfolding small_def big_def .
qed

text \<open>
  C6. The allocator returns the models in ascending weight order, each with its reference,
  weight and relative size unchanged and with a tier that is at most the proposed tier and
  at least Thumb.
\<close>

theorem budget_downgrade_only:
  "list_all2 (\<lambda>m m'. model m' = model m \<and> weight m' = weight m \<and> relSize m' = relSize m
       \<and> quality m' \<le> quality m \<and> Thumb \<le> quality m') (sort_key weight es) (allocate es)"
  by (simp add: allocate_def Let_def budgetLoop_downgrade_only)

section \<open>Properties of the apply loop\<close>

lemma applyQuality_same: "applyQuality mdl (ins_quality mdl) w = mdl"
  by (simp add: applyQuality_def Let_def)

lemma length_applyLoop: "length (applyLoop es ms) = length ms"
  by (induction es arbitrary: ms) simp_all

lemma applyLoop_other: "i \<notin> model ` set es \<Longrightarrow> applyLoop es ms ! i = ms ! i"
  by (induction es arbitrary: ms) simp_all

lemma applyLoop_nth:
  "distinct (map model es) \<Longrightarrow> e \<in> set es \<Longrightarrow> model e < length ms \<Longrightarrow>
   applyLoop es ms ! model e = applyQuality (ms ! model e) (quality e) (weight e)"
proof (induction es arbitrary: ms)
  case Nil
  then show ?case by simp
next
  case (Cons a es)
  let ?ms = "ms[model a := applyQuality (ms ! model a) (quality a) (weight a)]"
  show ?case
  proof (cases "e = a")
    case True
    have "model a \<notin> model ` set es" using Cons.prems(1) by simp
    then have "applyLoop es ?ms ! model a = ?ms ! model a" by (rule applyLoop_other)
    then show ?thesis using True Cons.prems(3) by simp
  next
    case False
    then have e: "e \<in> set es" using Cons.prems(2) by simp
    have "model a \<notin> model ` set es" using Cons.prems(1) by simp
    moreover have "model e \<in> model ` set es" using e by (rule imageI)
    ultimately have ne: "model e \<noteq> model a" by metis
    have "applyLoop es ?ms ! model e = applyQuality (?ms ! model e) (quality e) (weight e)"
        using Cons.prems e by (intro Cons.IH) simp_all
    then show ?thesis using ne by simp
  qed
qed

text \<open>
  C7. The body of the apply loop keeps the model as it is when the final tier is above the
  current one and the weight is 0; a final tier below the current one goes to the
  collaborator whatever the weight, and the model takes the quality of the derivative it
  answers with; a model at Thumb with weight 0 is at Thumb afterwards for every final tier.
  In the loop each model is treated by the body with its own entry.
\<close>

theorem apply_gates_upgrades:
  "(ins_quality mdl < q \<and> w = 0 \<longrightarrow> applyQuality mdl q w = mdl)
   \<and> (q < ins_quality mdl \<longrightarrow>
        applyQuality mdl q w =
          (case derivatives_select mdl q of None \<Rightarrow> mdl | Some d \<Rightarrow> mdl\<lparr>ins_quality := d\<rparr>))
   \<and> (w = 0 \<and> ins_quality mdl = Thumb \<longrightarrow> ins_quality (applyQuality mdl q w) = Thumb)
   \<and> (distinct (map model es) \<and> e \<in> set es \<and> model e < length ms \<longrightarrow>
        applyLoop es ms ! model e = applyQuality (ms ! model e) (quality e) (weight e))"
proof (intro conjI impI)
  assume "ins_quality mdl < q \<and> w = 0"
  then show "applyQuality mdl q w = mdl" by (simp add: applyQuality_def Let_def)
next
  assume "q < ins_quality mdl"
  then show "applyQuality mdl q w =
      (case derivatives_select mdl q of None \<Rightarrow> mdl | Some d \<Rightarrow> mdl\<lparr>ins_quality := d\<rparr>)"
    by (auto simp add: applyQuality_def Let_def split: option.splits)
next
  assume a: "w = 0 \<and> ins_quality mdl = Thumb"
  show "ins_quality (applyQuality mdl q w) = Thumb"
  proof (cases "q = Thumb")
    case True
    with a show ?thesis by (simp add: applyQuality_def Let_def)
  next
    case False
    then have "Thumb < q" by (cases q) (simp_all add: less_EDerivativeQuality_def)
    with a show ?thesis by (simp add: applyQuality_def Let_def)
  qed
next
  assume "distinct (map model es) \<and> e \<in> set es \<and> model e < length ms"
  then show "applyLoop es ms ! model e = applyQuality (ms ! model e) (quality e) (weight e)"
    by (simp add: applyLoop_nth)
qed

theorem apply_gates_upgrades_witness:
  "ins_quality \<lparr>ins_quality = Thumb, corners = [], derivatives_select = Some\<rparr> < High
   \<and> applyQuality \<lparr>ins_quality = Thumb, corners = [], derivatives_select = Some\<rparr> High 0
       = \<lparr>ins_quality = Thumb, corners = [], derivatives_select = Some\<rparr>
   \<and> Low < ins_quality \<lparr>ins_quality = High, corners = [], derivatives_select = Some\<rparr>
   \<and> applyQuality \<lparr>ins_quality = High, corners = [], derivatives_select = Some\<rparr> Low 0
       = \<lparr>ins_quality = Low, corners = [], derivatives_select = Some\<rparr>
   \<and> ins_quality (applyQuality \<lparr>ins_quality = Thumb, corners = [], derivatives_select = Some\<rparr> High 0) = Thumb
   \<and> applyLoop [\<lparr>model = 0, weight = 0, relSize = 0, quality = High\<rparr>]
        [\<lparr>ins_quality = Thumb, corners = [], derivatives_select = Some\<rparr>] ! 0
       = \<lparr>ins_quality = Thumb, corners = [], derivatives_select = Some\<rparr>"
  using apply_gates_upgrades[of "\<lparr>ins_quality = Thumb, corners = [], derivatives_select = Some\<rparr>" High 0
      "[\<lparr>model = 0, weight = 0, relSize = 0, quality = High\<rparr>]"
      "\<lparr>model = 0, weight = 0, relSize = 0, quality = High\<rparr>"
      "[\<lparr>ins_quality = Thumb, corners = [], derivatives_select = Some\<rparr>]"]
    apply_gates_upgrades[of "\<lparr>ins_quality = High, corners = [], derivatives_select = Some\<rparr>" Low 0
      "[]" undefined "[]"]
  by (simp add: less_EDerivativeQuality_def)

section \<open>Properties of the pass of tock\<close>

lemma map_t_model_tockEntries: "map t_model (tockEntries ms) = [0..<length ms]"
  by (simp add: tockEntries_def comp_def case_prod_beta)

lemma tockEntries_entry:
  "e \<in> set (tockEntries ms) \<Longrightarrow>
   t_model e < length ms \<and> t_weight e = tockWeight (ndcBox (corners (ms ! t_model e)))"
  by (auto simp add: tockEntries_def in_set_enumerate_eq)

lemma tockSorted_models:
  "distinct (map t_model (tockSorted ms)) \<and> set (map t_model (tockSorted ms)) = {0..<length ms}"
proof -
  have d: "distinct (map t_model (tockEntries ms))"
    by (simp add: map_t_model_tockEntries)
  have s: "set (map t_model (tockEntries ms)) = {0..<length ms}"
    by (simp add: map_t_model_tockEntries)
  from d have "distinct (map t_model (tockSorted ms))"
    by (simp add: tockSorted_def distinct_map)
  moreover from s have "set (map t_model (tockSorted ms)) = {0..<length ms}"
    by (simp add: tockSorted_def)
  ultimately show ?thesis by simp
qed

lemma length_tockSorted: "length (tockSorted ms) = length ms"
  by (simp add: tockSorted_def tockEntries_def)

lemma tockSorted_entry:
  "e \<in> set (tockSorted ms) \<Longrightarrow>
   t_model e < length ms \<and> t_weight e = tockWeight (ndcBox (corners (ms ! t_model e)))"
  using tockEntries_entry[of e ms] by (simp add: tockSorted_def)

lemma tockModel_snd:
  "snd (tockModel i mdl) =
     (if rankQuality i = ins_quality mdl then mdl
      else case derivatives_select mdl (rankQuality i) of
             None \<Rightarrow> mdl
           | Some d \<Rightarrow> mdl\<lparr>ins_quality := d\<rparr>)"
  by (auto simp add: tockModel_def Let_def split: option.splits)

lemma tockLoop_other:
  "j \<notin> t_model ` set es \<Longrightarrow> snd (tockLoop i es (c, ms)) ! j = ms ! j"
  by (induction es arbitrary: i c ms) (simp_all add: Let_def)

lemma tockLoop_nth:
  "distinct (map t_model es) \<Longrightarrow> k < length es \<Longrightarrow> t_model (es ! k) < length ms \<Longrightarrow>
   snd (tockLoop i es (c, ms)) ! t_model (es ! k) = snd (tockModel (i + k) (ms ! t_model (es ! k)))"
proof (induction es arbitrary: i k c ms)
  case Nil
  then show ?case by simp
next
  case (Cons a es)
  let ?r = "tockModel i (ms ! t_model a)"
  let ?ms = "ms[t_model a := snd ?r]"
  have unf: "tockLoop i (a # es) (c, ms) = tockLoop (i + 1) es (c \<or> fst ?r, ?ms)"
    by (simp add: Let_def)
  show ?case
  proof (cases k)
    case 0
    have "t_model a \<notin> t_model ` set es" using Cons.prems(1) by simp
    then have "snd (tockLoop (i + 1) es (c \<or> fst ?r, ?ms)) ! t_model a = ?ms ! t_model a"
      by (rule tockLoop_other)
    then show ?thesis using 0 Cons.prems(3) unf by simp
  next
    case (Suc k')
    have k': "k' < length es" using Cons.prems(2) Suc by simp
    have "t_model a \<notin> t_model ` set es" using Cons.prems(1) by simp
    moreover have "t_model (es ! k') \<in> t_model ` set es" using k' by simp
    ultimately have ne: "t_model (es ! k') \<noteq> t_model a" by metis
    have "snd (tockLoop (i + 1) es (c \<or> fst ?r, ?ms)) ! t_model (es ! k')
        = snd (tockModel (i + 1 + k') (?ms ! t_model (es ! k')))"
      using Cons.prems k' Suc by (intro Cons.IH) simp_all
    then show ?thesis using ne Suc unf by simp
  qed
qed

lemma length_tockLoop: "length (snd (tockLoop i es s)) = length (snd s)"
  by (induction es arbitrary: i s) (auto simp add: Let_def)

lemma length_tock: "length (snd (tock a b ms)) = length ms"
  by (simp add: tock_def length_tockLoop)

lemma tock_nth:
  assumes "k < length ms"
  shows "snd (tock True True ms) ! t_model (tockSorted ms ! k)
       = snd (tockModel k (ms ! t_model (tockSorted ms ! k)))"
proof -
  have k: "k < length (tockSorted ms)" using assms by (simp add: length_tockSorted)
  then have "tockSorted ms ! k \<in> set (tockSorted ms)" by simp
  then have "t_model (tockSorted ms ! k) < length ms"
    using tockSorted_entry by blast
  moreover have "distinct (map t_model (tockSorted ms))"
    using tockSorted_models[of ms] by simp
  ultimately have "snd (tockLoop 0 (tockSorted ms) (False, ms)) ! t_model (tockSorted ms ! k)
      = snd (tockModel (0 + k) (ms ! t_model (tockSorted ms ! k)))"
    using k by (intro tockLoop_nth) simp_all
  then show ?thesis by (simp add: tock_def)
qed

lemma tockModel_quality_cong:
  "ins_quality m = ins_quality m' \<Longrightarrow> derivatives_select m = derivatives_select m' \<Longrightarrow>
   ins_quality (snd (tockModel k m)) = ins_quality (snd (tockModel k m'))"
  by (simp add: tockModel_snd split: option.splits)

lemma tock_depends_on_order:
  assumes len: "length ms' = length ms"
    and ord: "map t_model (tockSorted ms') = map t_model (tockSorted ms)"
    and cur: "map ins_quality ms' = map ins_quality ms"
    and sel: "map derivatives_select ms' = map derivatives_select ms"
  shows "map ins_quality (snd (tock True True ms')) = map ins_quality (snd (tock True True ms))"
proof (rule nth_equalityI)
  show "length (map ins_quality (snd (tock True True ms')))
      = length (map ins_quality (snd (tock True True ms)))"
    by (simp add: length_tock len)
next
  fix j assume "j < length (map ins_quality (snd (tock True True ms')))"
  then have j: "j < length ms" by (simp add: length_tock len)
  then have "j \<in> set (map t_model (tockSorted ms))"
    using tockSorted_models[of ms] by simp
  then obtain k where k: "k < length (tockSorted ms)" and kj: "map t_model (tockSorted ms) ! k = j"
    by (auto simp add: in_set_conv_nth)
  have k1: "k < length ms" using k by (simp add: length_tockSorted)
  have k2: "k < length ms'" using k1 len by simp
  have m1: "t_model (tockSorted ms ! k) = j" using k kj by simp
  have "map t_model (tockSorted ms') ! k = j" using kj ord by simp
  then have m2: "t_model (tockSorted ms' ! k) = j"
    using k2 by (simp add: length_tockSorted)
  have c: "ins_quality (ms' ! j) = ins_quality (ms ! j)"
    using cur j len by (metis nth_map)
  have d: "derivatives_select (ms' ! j) = derivatives_select (ms ! j)"
    using sel j len by (metis nth_map)
  have "ins_quality (snd (tock True True ms') ! j) = ins_quality (snd (tockModel k (ms' ! j)))"
    using tock_nth[OF k2] m2 by simp
  also have "\<dots> = ins_quality (snd (tockModel k (ms ! j)))"
    using c d by (rule tockModel_quality_cong)
  also have "\<dots> = ins_quality (snd (tock True True ms) ! j)"
    using tock_nth[OF k1] m1 by simp
  finally show "map ins_quality (snd (tock True True ms')) ! j
      = map ins_quality (snd (tock True True ms)) ! j"
    using j len by (simp add: length_tock)
qed

text \<open>
  C10. In \<^verbatim>\<open>tock\<close> the model at rank \<open>i\<close> of the stable descending sort by weight is
  treated with the tier of the rank table: High for ranks 0 and 1, Medium for 2 to 4, Low
  for 5 to 9, Thumb from 10 on. It keeps its state when that tier is its current one or the
  collaborator answers null, takes the quality of the answered derivative otherwise, and so
  ends at the rank's tier whenever a derivative of that tier is answered. Every model has
  exactly one rank. Two scenes with the same current tiers and collaborators and the same
  order of models by weight end with the same tiers: the weights count through the order
  alone, and no threshold, margin or budget enters.
\<close>

theorem tock_rank_only:
  assumes "i < length ms" and "e = tockSorted ms ! i" and "mdl = ms ! t_model e"
  shows "snd (tock True True ms) ! t_model e =
           (if rankQuality i = ins_quality mdl then mdl
            else case derivatives_select mdl (rankQuality i) of
                   None \<Rightarrow> mdl
                 | Some d \<Rightarrow> mdl\<lparr>ins_quality := d\<rparr>)
         \<and> (derivatives_select mdl (rankQuality i) = Some (rankQuality i) \<longrightarrow>
              ins_quality (snd (tock True True ms) ! t_model e) = rankQuality i)
         \<and> rankQuality i = (if i < 2 then High else if i < 5 then Medium
                             else if i < 10 then Low else Thumb)
         \<and> t_model e < length ms
         \<and> t_weight e = tockWeight (ndcBox (corners mdl))
         \<and> sorted (map (\<lambda>e. - t_weight e) (tockSorted ms))
         \<and> distinct (map t_model (tockSorted ms))
         \<and> set (map t_model (tockSorted ms)) = {0..<length ms}
         \<and> (length ms' = length ms
              \<and> map t_model (tockSorted ms') = map t_model (tockSorted ms)
              \<and> map ins_quality ms' = map ins_quality ms
              \<and> map derivatives_select ms' = map derivatives_select ms \<longrightarrow>
              map ins_quality (snd (tock True True ms')) = map ins_quality (snd (tock True True ms)))"
proof -
  have i: "i < length (tockSorted ms)" using assms(1) by (simp add: length_tockSorted)
  then have mem: "e \<in> set (tockSorted ms)" using assms(2) by simp
  have ent: "t_model e < length ms \<and> t_weight e = tockWeight (ndcBox (corners (ms ! t_model e)))"
    using mem by (rule tockSorted_entry)
  have d: "distinct (map t_model (tockSorted ms))"
    and s: "set (map t_model (tockSorted ms)) = {0..<length ms}"
    using tockSorted_models[of ms] by simp_all
  have "snd (tockLoop 0 (tockSorted ms) (False, ms)) ! t_model (tockSorted ms ! i)
      = snd (tockModel (0 + i) (ms ! t_model (tockSorted ms ! i)))"
    using d i ent assms(2) by (intro tockLoop_nth) simp_all
  then have r: "snd (tock True True ms) ! t_model e = snd (tockModel i mdl)"
    using assms(2,3) by (simp add: tock_def)
  have srt: "sorted (map (\<lambda>e. - t_weight e) (tockSorted ms))"
    by (simp add: tockSorted_def)
  have q: "derivatives_select mdl (rankQuality i) = Some (rankQuality i) \<longrightarrow>
      ins_quality (snd (tockModel i mdl)) = rankQuality i"
    by (simp add: tockModel_snd)
  have r': "snd (tock True True ms) ! t_model e =
           (if rankQuality i = ins_quality mdl then mdl
            else case derivatives_select mdl (rankQuality i) of
                   None \<Rightarrow> mdl
                 | Some d \<Rightarrow> mdl\<lparr>ins_quality := d\<rparr>)"
    using r by (simp only: tockModel_snd)
  have q': "derivatives_select mdl (rankQuality i) = Some (rankQuality i) \<longrightarrow>
      ins_quality (snd (tock True True ms) ! t_model e) = rankQuality i"
    using q by (simp only: r)
  have t: "rankQuality i = (if i < 2 then High else if i < 5 then Medium
                             else if i < 10 then Low else Thumb)"
    by (simp add: rankQuality_def)
  have e1: "t_model e < length ms" using ent by simp
  have e2: "t_weight e = tockWeight (ndcBox (corners mdl))" using ent assms(3) by simp
  have inv: "length ms' = length ms
      \<and> map t_model (tockSorted ms') = map t_model (tockSorted ms)
      \<and> map ins_quality ms' = map ins_quality ms
      \<and> map derivatives_select ms' = map derivatives_select ms \<longrightarrow>
      map ins_quality (snd (tock True True ms')) = map ins_quality (snd (tock True True ms))"
    using tock_depends_on_order[of ms' ms] by blast
  show ?thesis
    by (intro conjI r' q' t e1 e2 srt d s inv)
qed

theorem tock_rank_only_witness:
  "(0::nat) < length
     [\<lparr>ins_quality = Thumb, corners = [\<lparr>vx = -1/10, vy = -1/10, vz = 0\<rparr>, \<lparr>vx = 1/10, vy = 1/10, vz = 0\<rparr>], derivatives_select = Some\<rparr>,
      \<lparr>ins_quality = Thumb, corners = [\<lparr>vx = -1/2, vy = -1/2, vz = 0\<rparr>, \<lparr>vx = 1/2, vy = 1/2, vz = 0\<rparr>], derivatives_select = Some\<rparr>]
   \<and> map t_model (tockSorted
     [\<lparr>ins_quality = Thumb, corners = [\<lparr>vx = -1/10, vy = -1/10, vz = 0\<rparr>, \<lparr>vx = 1/10, vy = 1/10, vz = 0\<rparr>], derivatives_select = Some\<rparr>,
      \<lparr>ins_quality = Thumb, corners = [\<lparr>vx = -1/2, vy = -1/2, vz = 0\<rparr>, \<lparr>vx = 1/2, vy = 1/2, vz = 0\<rparr>], derivatives_select = Some\<rparr>]) = [1, 0]
   \<and> map t_model (tockSorted
     [\<lparr>ins_quality = Thumb, corners = [\<lparr>vx = -1/5, vy = -1/5, vz = 0\<rparr>, \<lparr>vx = 1/5, vy = 1/5, vz = 0\<rparr>], derivatives_select = Some\<rparr>,
      \<lparr>ins_quality = Thumb, corners = [\<lparr>vx = -1, vy = -1, vz = 0\<rparr>, \<lparr>vx = 1, vy = 1, vz = 0\<rparr>], derivatives_select = Some\<rparr>]) = [1, 0]
   \<and> ins_quality (snd (tock True True
     [\<lparr>ins_quality = Thumb, corners = [\<lparr>vx = -1/10, vy = -1/10, vz = 0\<rparr>, \<lparr>vx = 1/10, vy = 1/10, vz = 0\<rparr>], derivatives_select = Some\<rparr>,
      \<lparr>ins_quality = Thumb, corners = [\<lparr>vx = -1/2, vy = -1/2, vz = 0\<rparr>, \<lparr>vx = 1/2, vy = 1/2, vz = 0\<rparr>], derivatives_select = Some\<rparr>]) ! 1) = High
   \<and> map ins_quality (snd (tock True True
     [\<lparr>ins_quality = Thumb, corners = [\<lparr>vx = -1/5, vy = -1/5, vz = 0\<rparr>, \<lparr>vx = 1/5, vy = 1/5, vz = 0\<rparr>], derivatives_select = Some\<rparr>,
      \<lparr>ins_quality = Thumb, corners = [\<lparr>vx = -1, vy = -1, vz = 0\<rparr>, \<lparr>vx = 1, vy = 1, vz = 0\<rparr>], derivatives_select = Some\<rparr>]))
     = map ins_quality (snd (tock True True
     [\<lparr>ins_quality = Thumb, corners = [\<lparr>vx = -1/10, vy = -1/10, vz = 0\<rparr>, \<lparr>vx = 1/10, vy = 1/10, vz = 0\<rparr>], derivatives_select = Some\<rparr>,
      \<lparr>ins_quality = Thumb, corners = [\<lparr>vx = -1/2, vy = -1/2, vz = 0\<rparr>, \<lparr>vx = 1/2, vy = 1/2, vz = 0\<rparr>], derivatives_select = Some\<rparr>]))"
proof -
  define ms where "ms =
     [\<lparr>ins_quality = Thumb, corners = [\<lparr>vx = -1/10, vy = -1/10, vz = 0\<rparr>, \<lparr>vx = 1/10, vy = 1/10, vz = 0\<rparr>], derivatives_select = Some\<rparr>,
      \<lparr>ins_quality = Thumb, corners = [\<lparr>vx = -1/2, vy = -1/2, vz = 0\<rparr>, \<lparr>vx = 1/2, vy = 1/2, vz = 0\<rparr>], derivatives_select = Some\<rparr>]"
  define ns where "ns =
     [\<lparr>ins_quality = Thumb, corners = [\<lparr>vx = -1/5, vy = -1/5, vz = 0\<rparr>, \<lparr>vx = 1/5, vy = 1/5, vz = 0\<rparr>], derivatives_select = Some\<rparr>,
      \<lparr>ins_quality = Thumb, corners = [\<lparr>vx = -1, vy = -1, vz = 0\<rparr>, \<lparr>vx = 1, vy = 1, vz = 0\<rparr>], derivatives_select = Some\<rparr>]"
  have s1: "map t_model (tockSorted ms) = [1, 0]"
    by (simp add: ms_def tockSorted_def tockEntries_def tockWeight_def ndcBox_def makeEmpty_def
        relSize_of_def clampSize_def depthWeight_def)
  have s2: "map t_model (tockSorted ns) = [1, 0]"
    by (simp add: ns_def tockSorted_def tockEntries_def tockWeight_def ndcBox_def makeEmpty_def
        relSize_of_def clampSize_def depthWeight_def)
  have l: "(0::nat) < length ms" "length ns = length ms"
    by (simp_all add: ms_def ns_def)
  have c: "map ins_quality ns = map ins_quality ms"
    "map derivatives_select ns = map derivatives_select ms"
    by (simp_all add: ms_def ns_def)
  have e: "t_model (tockSorted ms ! 0) = 1"
    using s1 l by (metis length_tockSorted nth_Cons_0 nth_map)
  have d: "derivatives_select (ms ! 1) (rankQuality 0) = Some (rankQuality 0)"
    by (simp add: ms_def)
  have "(0::nat) < length ms \<and> map t_model (tockSorted ms) = [1, 0]
      \<and> map t_model (tockSorted ns) = [1, 0]
      \<and> ins_quality (snd (tock True True ms) ! 1) = High
      \<and> map ins_quality (snd (tock True True ns)) = map ins_quality (snd (tock True True ms))"
    using tock_rank_only[of 0 ms "tockSorted ms ! 0" "ms ! t_model (tockSorted ms ! 0)" ns]
      s1 s2 l c e d
    by (simp add: rankQuality_def)
  then show ?thesis unfolding ms_def ns_def .
qed

section \<open>Two passes of tick in succession\<close>

lemma length_tickEntries: "length (tickEntries ms) = length ms"
  by (simp add: tickEntries_def)

lemma tickEntries_nth: "j < length ms \<Longrightarrow> tickEntries ms ! j = tickEntry j (ms ! j)"
  by (simp add: tickEntries_def nth_enumerate_eq)

lemma map_model_tickEntries: "map model (tickEntries ms) = [0..<length ms]"
proof -
  have "model (tickEntry i m) = i" for i m
    by (simp add: tickEntry_def Let_def)
  then show ?thesis
    by (simp add: tickEntries_def comp_def case_prod_beta)
qed

lemma tickEntries_entry:
  assumes "e \<in> set (tickEntries ms)"
  shows "model e < length ms \<and> e = tickEntry (model e) (ms ! model e)"
proof -
  from assms obtain j where j: "j < length ms" and e: "e = tickEntries ms ! j"
    by (auto simp add: in_set_conv_nth length_tickEntries)
  then have "e = tickEntry j (ms ! j)" by (simp add: tickEntries_nth)
  moreover have "model (tickEntry j (ms ! j)) = j" by (simp add: tickEntry_def Let_def)
  ultimately show ?thesis using j by simp
qed

lemma insort_key_map_cong:
  "(\<And>x. k (g x) = k x) \<Longrightarrow> insort_key k (g x) (map g ys) = map g (insort_key k x ys)"
  by (induction ys) simp_all

lemma sort_key_map_cong:
  "(\<And>x. k (g x) = k x) \<Longrightarrow> sort_key k (map g xs) = map g (sort_key k xs)"
  by (induction xs) (simp_all add: insort_key_map_cong)

lemma getQuality_zero: "getQuality c 0 = Thumb"
  by (simp add: getQuality_def steps_def hyst_def)

lemma getQuality_idem: "getQuality (getQuality c w) w = getQuality c w"
  by (cases c) (auto simp add: getQuality_def steps_def hyst_def quality_order)

lemma getQuality_between:
  "q \<le> getQuality c w \<Longrightarrow> q \<le> getQuality q w \<and> getQuality q w \<le> getQuality c w"
  by (cases c; cases q) (auto simp add: getQuality_def steps_def hyst_def quality_order split: if_splits)

lemma less_decrement: "p < q \<Longrightarrow> p \<le> decrement q"
  by (cases p; cases q) (simp_all add: quality_order)

lemma downgrade_between:
  "downgrade r t q \<le> p \<Longrightarrow> p \<le> q \<Longrightarrow> downgrade r t p = downgrade r t q"
proof (induction r t q rule: downgrade.induct)
  case (1 reserved texSize q)
  show ?case
  proof (cases "p = q")
    case True
    then show ?thesis by simp
  next
    case False
    with "1.prems"(2) have pq: "p < q" by simp
    show ?thesis
    proof (cases "16384 * 16384 - reserved < texSize + sizeMap q \<and> Thumb < q")
      case True
      then have eq: "downgrade reserved texSize q = downgrade reserved texSize (decrement q)"
        by (simp add: downgrade_step)
      have "downgrade reserved texSize p = downgrade reserved texSize (decrement q)"
        using "1.IH"[OF True] "1.prems"(1) eq less_decrement[OF pq] by simp
      then show ?thesis using eq by simp
    next
      case False
      then have "downgrade reserved texSize q = q" by (rule downgrade_stop)
      with "1.prems"(1) pq show ?thesis by simp
    qed
  qed
qed

lemma budgetLoop_stable:
  "list_all2 (\<lambda>s s'. s' = s\<lparr>quality := quality s'\<rparr> \<and> quality s' \<le> quality s) S S' \<Longrightarrow>
   list_all2 (\<lambda>s' f. quality f \<le> quality s') S' (budgetLoop r t S) \<Longrightarrow>
   budgetLoop r t S' = budgetLoop r t S"
proof (induction S arbitrary: S' r t)
  case Nil
  then show ?case by simp
next
  case (Cons s S)
  from Cons.prems(1) obtain s' T where S': "S' = s' # T"
    and s': "s' = s\<lparr>quality := quality s'\<rparr>" "quality s' \<le> quality s"
    and rest: "list_all2 (\<lambda>s s'. s' = s\<lparr>quality := quality s'\<rparr> \<and> quality s' \<le> quality s) S T"
    by (auto simp add: list_all2_Cons1)
  define r' where "r' = r - 512 * 512"
  define q where "q = downgrade r' t (quality s)"
  have unf: "budgetLoop r t (s # S) = s\<lparr>quality := q\<rparr> # budgetLoop r' (t + sizeMap q) S"
    by (simp add: Let_def r'_def q_def)
  from Cons.prems(2) have qs: "q \<le> quality s'"
    and rest2: "list_all2 (\<lambda>s' f. quality f \<le> quality s') T (budgetLoop r' (t + sizeMap q) S)"
    unfolding unf S' by simp_all
  have q2: "downgrade r' t (quality s') = q"
    unfolding q_def using qs s'(2) by (intro downgrade_between) (simp_all add: q_def)
  have "s'\<lparr>quality := q\<rparr> = s\<lparr>quality := q\<rparr>"
    by (subst s'(1)) simp
  moreover have "budgetLoop r' (t + sizeMap q) T = budgetLoop r' (t + sizeMap q) S"
    using rest rest2 by (rule Cons.IH)
  moreover have "budgetLoop r t (s' # T)
      = s'\<lparr>quality := downgrade r' t (quality s')\<rparr>
          # budgetLoop r' (t + sizeMap (downgrade r' t (quality s'))) T"
    by (simp add: Let_def r'_def)
  ultimately show ?case
    unfolding unf S' q2 by simp
qed

lemma applyQuality_fields:
  "corners (applyQuality m q w) = corners m
   \<and> derivatives_select (applyQuality m q w) = derivatives_select m"
  by (simp add: applyQuality_def Let_def split: option.splits)

lemma map_update_same: "(map f ms)[i := f (ms ! i)] = map f ms"
  by (metis list_update_id map_update)

lemma applyLoop_corners: "map corners (applyLoop es ms) = map corners ms"
proof (induction es arbitrary: ms)
  case Nil
  then show ?case by simp
next
  case (Cons e es)
  have "map corners (ms[model e := applyQuality (ms ! model e) (quality e) (weight e)]) = map corners ms"
    by (simp add: map_update applyQuality_fields map_update_same)
  then show ?case using Cons.IH by simp
qed

lemma applyLoop_select: "map derivatives_select (applyLoop es ms) = map derivatives_select ms"
proof (induction es arbitrary: ms)
  case Nil
  then show ?case by simp
next
  case (Cons e es)
  have "map derivatives_select (ms[model e := applyQuality (ms ! model e) (quality e) (weight e)])
      = map derivatives_select ms"
    by (simp add: map_update applyQuality_fields map_update_same)
  then show ?case using Cons.IH by simp
qed

lemma applyLoop_id:
  "\<forall>f\<in>set es. ins_quality (ms ! model f) = quality f \<Longrightarrow> applyLoop es ms = ms"
proof (induction es)
  case Nil
  then show ?case by simp
next
  case (Cons e es)
  have "applyQuality (ms ! model e) (quality e) (weight e) = ms ! model e"
    using Cons.prems applyQuality_same[of "ms ! model e" "weight e"] by simp
  then show ?case using Cons by simp
qed

lemma applyQuality_exact:
  "derivatives_select m = Some \<Longrightarrow> \<not> (ins_quality m < q \<and> w = 0) \<Longrightarrow>
   applyQuality m q w = m\<lparr>ins_quality := q\<rparr>"
  by (auto simp add: applyQuality_def Let_def)

lemma length_budgetLoop: "length (budgetLoop r t ms) = length ms"
  by (induction ms arbitrary: r t) (simp_all add: Let_def)

lemma allocate_shape:
  "list_all2 (\<lambda>m m'. model m' = model m \<and> weight m' = weight m \<and> relSize m' = relSize m
       \<and> quality m' \<le> quality m \<and> Thumb \<le> quality m') (sort_key weight es) (allocate es)"
  by (simp add: allocate_def Let_def budgetLoop_downgrade_only)

lemma map_model_allocate: "map model (allocate es) = map model (sort_key weight es)"
proof -
  have "list_all2 (\<lambda>m m'. model m = model m') (sort_key weight es) (allocate es)"
    using allocate_shape[of es] by (rule list_all2_mono) simp
  then show ?thesis by (simp add: list_all2_conv_all_nth list_eq_iff_nth_eq)
qed

lemma allocate_models_tick:
  "distinct (map model (allocate (tickEntries ms)))
   \<and> set (map model (allocate (tickEntries ms))) = {0..<length ms}"
proof -
  have d: "distinct (map model (tickEntries ms))"
    and s: "set (map model (tickEntries ms)) = {0..<length ms}"
    by (simp_all add: map_model_tickEntries)
  from d have "distinct (map model (sort_key weight (tickEntries ms)))"
    by (simp add: distinct_map)
  moreover from s have "set (map model (sort_key weight (tickEntries ms))) = {0..<length ms}"
    by simp
  ultimately show ?thesis by (simp add: map_model_allocate)
qed

text \<open>Position by position: the sorted entry, the allocated entry, the model.\<close>

lemma allocate_tick_nth:
  assumes "i < length ms"
  defines "s \<equiv> sort_key weight (tickEntries ms) ! i"
    and "f \<equiv> allocate (tickEntries ms) ! i"
  shows "model f = model s \<and> weight f = weight s \<and> relSize f = relSize s
     \<and> quality f \<le> quality s \<and> model s < length ms
     \<and> s = tickEntry (model s) (ms ! model s)
     \<and> (weight f = 0 \<longrightarrow> quality f = Thumb)"
proof -
  have i: "i < length (sort_key weight (tickEntries ms))"
    using assms(1) by (simp add: length_tickEntries)
  have sh: "model f = model s \<and> weight f = weight s \<and> relSize f = relSize s \<and> quality f \<le> quality s"
    using list_all2_nthD[OF allocate_shape[of "tickEntries ms"] i] by (simp add: s_def f_def)
  have "s \<in> set (tickEntries ms)"
    using i by (metis nth_mem s_def set_sort)
  then have ent: "model s < length ms \<and> s = tickEntry (model s) (ms ! model s)"
    by (rule tickEntries_entry)
  have "quality s = Thumb" if "weight s = 0"
  proof -
    have "quality s = getQuality (ins_quality (ms ! model s)) (weight s)"
      by (subst (1 3) conjunct2[OF ent]) (simp add: tickEntry_def Let_def)
    then show ?thesis using that by (simp add: getQuality_zero)
  qed
  then have "weight f = 0 \<longrightarrow> quality f = Thumb"
    using sh by (cases "quality f") (auto simp add: quality_order)
  then show ?thesis using sh ent by simp
qed

lemma lodPass_nth:
  assumes ex: "\<forall>m\<in>set ms. derivatives_select m = Some"
    and f: "f \<in> set (allocate (tickEntries ms))"
  shows "lodPass ms ! model f = (ms ! model f)\<lparr>ins_quality := quality f\<rparr>"
proof -
  from f obtain i where i: "i < length (allocate (tickEntries ms))"
    and fi: "f = allocate (tickEntries ms) ! i"
    by (auto simp add: in_set_conv_nth)
  have len: "length (allocate (tickEntries ms)) = length ms"
    using list_all2_lengthD[OF allocate_shape[of "tickEntries ms"]] by (simp add: length_tickEntries)
  have i': "i < length ms" using i len by simp
  note n = allocate_tick_nth[OF i', folded fi]
  have m: "model f < length ms" using n by simp
  have w: "\<not> (ins_quality (ms ! model f) < quality f \<and> weight f = 0)"
    using n by (auto simp add: quality_order)
  have sel: "derivatives_select (ms ! model f) = Some"
    using ex m by simp
  have "lodPass ms ! model f = applyQuality (ms ! model f) (quality f) (weight f)"
    unfolding lodPass_def using allocate_models_tick[of ms] f m by (intro applyLoop_nth) simp_all
  then show ?thesis using applyQuality_exact[OF sel w] by simp
qed

lemma lodPass_second_allocation:
  assumes ex: "\<forall>m\<in>set ms. derivatives_select m = Some"
  shows "allocate (tickEntries (lodPass ms)) = allocate (tickEntries ms)"
proof -
  define ms1 where "ms1 = lodPass ms"
  define g :: "entry \<Rightarrow> entry" where "g = (\<lambda>e. e\<lparr>quality := getQuality (ins_quality (ms1 ! model e)) (weight e)\<rparr>)"
  define S where "S = sort_key weight (tickEntries ms)"
  define F where "F = allocate (tickEntries ms)"
  have len1: "length ms1 = length ms"
    by (simp add: ms1_def lodPass_def length_applyLoop)
  have cor: "map corners ms1 = map corners ms"
    by (simp add: ms1_def lodPass_def applyLoop_corners)
  have es2: "tickEntries ms1 = map g (tickEntries ms)"
  proof (rule nth_equalityI)
    show "length (tickEntries ms1) = length (map g (tickEntries ms))"
      by (simp add: length_tickEntries len1)
  next
    fix j assume "j < length (tickEntries ms1)"
    then have j: "j < length ms" by (simp add: length_tickEntries len1)
    have c: "corners (ms1 ! j) = corners (ms ! j)"
      using cor j len1 by (metis nth_map)
    show "tickEntries ms1 ! j = map g (tickEntries ms) ! j"
      using j len1 c by (simp add: tickEntries_nth length_tickEntries g_def tickEntry_def Let_def)
  qed
  have wg: "weight (g x) = weight x" for x
    by (simp add: g_def)
  have S2: "sort_key weight (tickEntries ms1) = map g S"
    unfolding es2 S_def using wg by (rule sort_key_map_cong)
  have lenS: "length S = length ms"
    by (simp add: S_def length_tickEntries)
  have Fdef: "F = budgetLoop (2 * int (length S) * 512 * 512 + 1024 * 1024 * 4) 0 S"
    by (simp add: F_def allocate_def Let_def S_def)
  have lenF: "length F = length ms"
    by (simp add: Fdef length_budgetLoop lenS)
  have pos: "quality (F ! i) \<le> quality (g (S ! i)) \<and> quality (g (S ! i)) \<le> quality (S ! i)"
    if i: "i < length ms" for i
  proof -
    note n = allocate_tick_nth[OF i, folded S_def F_def]
    have fm: "F ! i \<in> set (allocate (tickEntries ms))"
      using i lenF by (simp add: F_def)
    have q1: "ins_quality (ms1 ! model (S ! i)) = quality (F ! i)"
      using lodPass_nth[OF ex fm] n by (simp add: ms1_def)
    have qs: "quality (S ! i) = getQuality (ins_quality (ms ! model (S ! i))) (weight (S ! i))"
      by (subst (1 3) conjunct1[OF conjunct2[OF conjunct2[OF conjunct2[OF conjunct2[OF conjunct2[OF n]]]]]])
        (simp add: tickEntry_def Let_def)
    have "quality (F ! i) \<le> getQuality (ins_quality (ms ! model (S ! i))) (weight (S ! i))"
      using n qs by simp
    from getQuality_between[OF this] show ?thesis
      using qs q1 by (simp add: g_def)
  qed
  have a: "list_all2 (\<lambda>s s'. s' = s\<lparr>quality := quality s'\<rparr> \<and> quality s' \<le> quality s) S (map g S)"
    using pos lenS by (simp add: list_all2_conv_all_nth g_def)
  have b: "list_all2 (\<lambda>s' f. quality f \<le> quality s') (map g S)
      (budgetLoop (2 * int (length S) * 512 * 512 + 1024 * 1024 * 4) 0 S)"
    using pos lenS lenF unfolding Fdef[symmetric] by (simp add: list_all2_conv_all_nth)
  have "budgetLoop (2 * int (length S) * 512 * 512 + 1024 * 1024 * 4) 0 (map g S)
      = budgetLoop (2 * int (length S) * 512 * 512 + 1024 * 1024 * 4) 0 S"
    using a b by (rule budgetLoop_stable)
  then have "allocate (tickEntries ms1) = F"
    by (simp add: allocate_def Let_def S2 Fdef)
  then show ?thesis by (simp add: ms1_def F_def)
qed

text \<open>
  C8, as the code has it. The classifier is idempotent in the current tier, and the apply
  loop's body leaves a model whose final tier is its current tier as it is. When every
  model's collaborator answers each request with a derivative of the requested quality, a
  second pass over the result of the first allocates the same final tiers, finds each of
  them equal to the model's current tier, and changes nothing.
\<close>

theorem lodPass_idempotent:
  "getQuality (getQuality c w) w = getQuality c w
   \<and> applyQuality mdl (ins_quality mdl) w = mdl
   \<and> ((\<forall>m\<in>set ms. derivatives_select m = Some) \<longrightarrow>
        allocate (tickEntries (lodPass ms)) = allocate (tickEntries ms)
        \<and> list_all (\<lambda>f. quality f = ins_quality (lodPass ms ! model f))
            (allocate (tickEntries (lodPass ms)))
        \<and> lodPass (lodPass ms) = lodPass ms)"
proof (intro conjI impI)
  show "getQuality (getQuality c w) w = getQuality c w"
    by (rule getQuality_idem)
  show "applyQuality mdl (ins_quality mdl) w = mdl"
    by (rule applyQuality_same)
next
  assume ex: "\<forall>m\<in>set ms. derivatives_select m = Some"
  show eq: "allocate (tickEntries (lodPass ms)) = allocate (tickEntries ms)"
    using ex by (rule lodPass_second_allocation)
  have same: "\<forall>f\<in>set (allocate (tickEntries ms)). ins_quality (lodPass ms ! model f) = quality f"
    using lodPass_nth[OF ex] by simp
  then show "list_all (\<lambda>f. quality f = ins_quality (lodPass ms ! model f))
            (allocate (tickEntries (lodPass ms)))"
    unfolding eq by (simp add: list_all_iff)
  have "applyLoop (allocate (tickEntries ms)) (lodPass ms) = lodPass ms"
    using same by (rule applyLoop_id)
  then show "lodPass (lodPass ms) = lodPass ms"
    using eq by (simp add: lodPass_def)
qed

theorem lodPass_idempotent_witness:
  "derivatives_select (fullModel\<lparr>ins_quality := Thumb\<rparr>) = Some
   \<and> derivatives_select fullModel = Some
   \<and> lodPass (lodPass [fullModel\<lparr>ins_quality := Thumb\<rparr>, fullModel])
       = lodPass [fullModel\<lparr>ins_quality := Thumb\<rparr>, fullModel]"
  using lodPass_idempotent[of Thumb 0 fullModel "[fullModel\<lparr>ins_quality := Thumb\<rparr>, fullModel]"]
  by (simp add: fullModel_def)

text \<open>The two passes over the scene of sixteen models, stage by stage.\<close>

lemma weight_loneHigh:
  "tickWeight (ndcBox (corners loneHigh)) = 31/100 \<and> relSize_of (ndcBox (corners loneHigh)) = 31/100"
  by (simp add: loneHigh_def boxCorners_def ndcBox_def makeEmpty_def tickWeight_def relSize_of_def
      depthWeight_def)

lemma weight_fullModel:
  "tickWeight (ndcBox (corners fullModel)) = 1/2 \<and> relSize_of (ndcBox (corners fullModel)) = 1/2"
  by (simp add: fullModel_def boxCorners_def ndcBox_def makeEmpty_def tickWeight_def relSize_of_def
      depthWeight_def)

lemma tickEntry_loneHigh:
  "tickEntry i (loneHigh\<lparr>ins_quality := c\<rparr>)
     = \<lparr>model = i, weight = 31/100, relSize = 31/100, quality = getQuality c (31/100)\<rparr>"
  by (simp add: tickEntry_def Let_def weight_loneHigh)

lemma tickEntry_fullModel:
  "tickEntry i (fullModel\<lparr>ins_quality := c\<rparr>)
     = \<lparr>model = i, weight = 1/2, relSize = 1/2, quality = getQuality c (1/2)\<rparr>"
  by (simp add: tickEntry_def Let_def weight_fullModel)

lemma getQuality_values:
  "getQuality Thumb (31/100) = Medium \<and> getQuality High (31/100) = High
   \<and> getQuality High (1/2) = High \<and> getQuality Medium (1/2) = High"
  by (simp add: getQuality_def steps_def hyst_def quality_order)

lemma models_fields:
  "loneHigh = loneHigh\<lparr>ins_quality := Thumb\<rparr>" "fullModel = fullModel\<lparr>ins_quality := High\<rparr>"
  "derivatives_select loneHigh = (\<lambda>q. Some High)" "derivatives_select fullModel = Some"
  by (simp_all add: loneHigh_def fullModel_def)

lemma scene_list:
  "crowdedScene = [loneHigh\<lparr>ins_quality := Thumb\<rparr>,
     fullModel\<lparr>ins_quality := High\<rparr>, fullModel\<lparr>ins_quality := High\<rparr>, fullModel\<lparr>ins_quality := High\<rparr>,
     fullModel\<lparr>ins_quality := High\<rparr>, fullModel\<lparr>ins_quality := High\<rparr>, fullModel\<lparr>ins_quality := High\<rparr>,
     fullModel\<lparr>ins_quality := High\<rparr>, fullModel\<lparr>ins_quality := High\<rparr>, fullModel\<lparr>ins_quality := High\<rparr>,
     fullModel\<lparr>ins_quality := High\<rparr>, fullModel\<lparr>ins_quality := High\<rparr>, fullModel\<lparr>ins_quality := High\<rparr>,
     fullModel\<lparr>ins_quality := High\<rparr>, fullModel\<lparr>ins_quality := High\<rparr>, fullModel\<lparr>ins_quality := High\<rparr>]"
  by (simp add: crowdedScene_def eval_nat_numeral models_fields(1,2)[symmetric])

lemma budgetLoop_fits:
  "t + sizeMap (quality m) \<le> 16384 * 16384 - (r - 512 * 512) \<Longrightarrow>
   budgetLoop r t (m # ms) = m # budgetLoop (r - 512 * 512) (t + sizeMap (quality m)) ms"
proof -
  assume "t + sizeMap (quality m) \<le> 16384 * 16384 - (r - 512 * 512)"
  then have "downgrade (r - 512 * 512) t (quality m) = quality m"
    by (intro downgrade_stop) simp
  then show ?thesis by (simp add: Let_def)
qed

lemma budgetLoop_lower:
  "16384 * 16384 - (r - 512 * 512) < t + sizeMap (quality m) \<Longrightarrow> Thumb < quality m \<Longrightarrow>
   budgetLoop r t (m # ms) = budgetLoop r t (m\<lparr>quality := decrement (quality m)\<rparr> # ms)"
  by (simp add: Let_def downgrade_step)

lemma entries1:
  "tickEntries crowdedScene =
    [\<lparr>model = 0, weight = 31/100, relSize = 31/100, quality = Medium\<rparr>,
     \<lparr>model = 1, weight = 1/2, relSize = 1/2, quality = High\<rparr>,
     \<lparr>model = 2, weight = 1/2, relSize = 1/2, quality = High\<rparr>,
     \<lparr>model = 3, weight = 1/2, relSize = 1/2, quality = High\<rparr>,
     \<lparr>model = 4, weight = 1/2, relSize = 1/2, quality = High\<rparr>,
     \<lparr>model = 5, weight = 1/2, relSize = 1/2, quality = High\<rparr>,
     \<lparr>model = 6, weight = 1/2, relSize = 1/2, quality = High\<rparr>,
     \<lparr>model = 7, weight = 1/2, relSize = 1/2, quality = High\<rparr>,
     \<lparr>model = 8, weight = 1/2, relSize = 1/2, quality = High\<rparr>,
     \<lparr>model = 9, weight = 1/2, relSize = 1/2, quality = High\<rparr>,
     \<lparr>model = 10, weight = 1/2, relSize = 1/2, quality = High\<rparr>,
     \<lparr>model = 11, weight = 1/2, relSize = 1/2, quality = High\<rparr>,
     \<lparr>model = 12, weight = 1/2, relSize = 1/2, quality = High\<rparr>,
     \<lparr>model = 13, weight = 1/2, relSize = 1/2, quality = High\<rparr>,
     \<lparr>model = 14, weight = 1/2, relSize = 1/2, quality = High\<rparr>,
     \<lparr>model = 15, weight = 1/2, relSize = 1/2, quality = High\<rparr>]"
  unfolding scene_list
  by (simp add: tickEntries_def tickEntry_loneHigh tickEntry_fullModel getQuality_values)

lemma sorted1:
  "sort_key weight (tickEntries crowdedScene) =
    [\<lparr>model = 0, weight = 31/100, relSize = 31/100, quality = Medium\<rparr>,
     \<lparr>model = 1, weight = 1/2, relSize = 1/2, quality = High\<rparr>,
     \<lparr>model = 2, weight = 1/2, relSize = 1/2, quality = High\<rparr>,
     \<lparr>model = 3, weight = 1/2, relSize = 1/2, quality = High\<rparr>,
     \<lparr>model = 4, weight = 1/2, relSize = 1/2, quality = High\<rparr>,
     \<lparr>model = 5, weight = 1/2, relSize = 1/2, quality = High\<rparr>,
     \<lparr>model = 6, weight = 1/2, relSize = 1/2, quality = High\<rparr>,
     \<lparr>model = 7, weight = 1/2, relSize = 1/2, quality = High\<rparr>,
     \<lparr>model = 8, weight = 1/2, relSize = 1/2, quality = High\<rparr>,
     \<lparr>model = 9, weight = 1/2, relSize = 1/2, quality = High\<rparr>,
     \<lparr>model = 10, weight = 1/2, relSize = 1/2, quality = High\<rparr>,
     \<lparr>model = 11, weight = 1/2, relSize = 1/2, quality = High\<rparr>,
     \<lparr>model = 12, weight = 1/2, relSize = 1/2, quality = High\<rparr>,
     \<lparr>model = 13, weight = 1/2, relSize = 1/2, quality = High\<rparr>,
     \<lparr>model = 14, weight = 1/2, relSize = 1/2, quality = High\<rparr>,
     \<lparr>model = 15, weight = 1/2, relSize = 1/2, quality = High\<rparr>]"
  unfolding entries1 by simp

lemma allocate1:
  "allocate (tickEntries crowdedScene) =
    [\<lparr>model = 0, weight = 31/100, relSize = 31/100, quality = Medium\<rparr>,
     \<lparr>model = 1, weight = 1/2, relSize = 1/2, quality = High\<rparr>,
     \<lparr>model = 2, weight = 1/2, relSize = 1/2, quality = High\<rparr>,
     \<lparr>model = 3, weight = 1/2, relSize = 1/2, quality = High\<rparr>,
     \<lparr>model = 4, weight = 1/2, relSize = 1/2, quality = High\<rparr>,
     \<lparr>model = 5, weight = 1/2, relSize = 1/2, quality = High\<rparr>,
     \<lparr>model = 6, weight = 1/2, relSize = 1/2, quality = High\<rparr>,
     \<lparr>model = 7, weight = 1/2, relSize = 1/2, quality = High\<rparr>,
     \<lparr>model = 8, weight = 1/2, relSize = 1/2, quality = High\<rparr>,
     \<lparr>model = 9, weight = 1/2, relSize = 1/2, quality = High\<rparr>,
     \<lparr>model = 10, weight = 1/2, relSize = 1/2, quality = High\<rparr>,
     \<lparr>model = 11, weight = 1/2, relSize = 1/2, quality = High\<rparr>,
     \<lparr>model = 12, weight = 1/2, relSize = 1/2, quality = High\<rparr>,
     \<lparr>model = 13, weight = 1/2, relSize = 1/2, quality = High\<rparr>,
     \<lparr>model = 14, weight = 1/2, relSize = 1/2, quality = High\<rparr>,
     \<lparr>model = 15, weight = 1/2, relSize = 1/2, quality = High\<rparr>]"
  unfolding allocate_def Let_def sorted1 by (simp add: budgetLoop_fits del: budgetLoop.simps(2))

lemma first_pass:
  "lodPass crowdedScene =
    [loneHigh\<lparr>ins_quality := High\<rparr>,
     fullModel\<lparr>ins_quality := High\<rparr>,
     fullModel\<lparr>ins_quality := High\<rparr>,
     fullModel\<lparr>ins_quality := High\<rparr>,
     fullModel\<lparr>ins_quality := High\<rparr>,
     fullModel\<lparr>ins_quality := High\<rparr>,
     fullModel\<lparr>ins_quality := High\<rparr>,
     fullModel\<lparr>ins_quality := High\<rparr>,
     fullModel\<lparr>ins_quality := High\<rparr>,
     fullModel\<lparr>ins_quality := High\<rparr>,
     fullModel\<lparr>ins_quality := High\<rparr>,
     fullModel\<lparr>ins_quality := High\<rparr>,
     fullModel\<lparr>ins_quality := High\<rparr>,
     fullModel\<lparr>ins_quality := High\<rparr>,
     fullModel\<lparr>ins_quality := High\<rparr>,
     fullModel\<lparr>ins_quality := High\<rparr>]"
  unfolding lodPass_def allocate1 unfolding scene_list
  by (simp add: applyQuality_def models_fields(3,4) quality_order)

lemma entries2:
  "tickEntries (lodPass crowdedScene) =
    [\<lparr>model = 0, weight = 31/100, relSize = 31/100, quality = High\<rparr>,
     \<lparr>model = 1, weight = 1/2, relSize = 1/2, quality = High\<rparr>,
     \<lparr>model = 2, weight = 1/2, relSize = 1/2, quality = High\<rparr>,
     \<lparr>model = 3, weight = 1/2, relSize = 1/2, quality = High\<rparr>,
     \<lparr>model = 4, weight = 1/2, relSize = 1/2, quality = High\<rparr>,
     \<lparr>model = 5, weight = 1/2, relSize = 1/2, quality = High\<rparr>,
     \<lparr>model = 6, weight = 1/2, relSize = 1/2, quality = High\<rparr>,
     \<lparr>model = 7, weight = 1/2, relSize = 1/2, quality = High\<rparr>,
     \<lparr>model = 8, weight = 1/2, relSize = 1/2, quality = High\<rparr>,
     \<lparr>model = 9, weight = 1/2, relSize = 1/2, quality = High\<rparr>,
     \<lparr>model = 10, weight = 1/2, relSize = 1/2, quality = High\<rparr>,
     \<lparr>model = 11, weight = 1/2, relSize = 1/2, quality = High\<rparr>,
     \<lparr>model = 12, weight = 1/2, relSize = 1/2, quality = High\<rparr>,
     \<lparr>model = 13, weight = 1/2, relSize = 1/2, quality = High\<rparr>,
     \<lparr>model = 14, weight = 1/2, relSize = 1/2, quality = High\<rparr>,
     \<lparr>model = 15, weight = 1/2, relSize = 1/2, quality = High\<rparr>]"
  unfolding first_pass
  by (simp add: tickEntries_def tickEntry_loneHigh tickEntry_fullModel getQuality_values)

lemma sorted2:
  "sort_key weight (tickEntries (lodPass crowdedScene)) =
    [\<lparr>model = 0, weight = 31/100, relSize = 31/100, quality = High\<rparr>,
     \<lparr>model = 1, weight = 1/2, relSize = 1/2, quality = High\<rparr>,
     \<lparr>model = 2, weight = 1/2, relSize = 1/2, quality = High\<rparr>,
     \<lparr>model = 3, weight = 1/2, relSize = 1/2, quality = High\<rparr>,
     \<lparr>model = 4, weight = 1/2, relSize = 1/2, quality = High\<rparr>,
     \<lparr>model = 5, weight = 1/2, relSize = 1/2, quality = High\<rparr>,
     \<lparr>model = 6, weight = 1/2, relSize = 1/2, quality = High\<rparr>,
     \<lparr>model = 7, weight = 1/2, relSize = 1/2, quality = High\<rparr>,
     \<lparr>model = 8, weight = 1/2, relSize = 1/2, quality = High\<rparr>,
     \<lparr>model = 9, weight = 1/2, relSize = 1/2, quality = High\<rparr>,
     \<lparr>model = 10, weight = 1/2, relSize = 1/2, quality = High\<rparr>,
     \<lparr>model = 11, weight = 1/2, relSize = 1/2, quality = High\<rparr>,
     \<lparr>model = 12, weight = 1/2, relSize = 1/2, quality = High\<rparr>,
     \<lparr>model = 13, weight = 1/2, relSize = 1/2, quality = High\<rparr>,
     \<lparr>model = 14, weight = 1/2, relSize = 1/2, quality = High\<rparr>,
     \<lparr>model = 15, weight = 1/2, relSize = 1/2, quality = High\<rparr>]"
  unfolding entries2 by simp

lemma allocate2:
  "allocate (tickEntries (lodPass crowdedScene)) =
    [\<lparr>model = 0, weight = 31/100, relSize = 31/100, quality = High\<rparr>,
     \<lparr>model = 1, weight = 1/2, relSize = 1/2, quality = High\<rparr>,
     \<lparr>model = 2, weight = 1/2, relSize = 1/2, quality = High\<rparr>,
     \<lparr>model = 3, weight = 1/2, relSize = 1/2, quality = High\<rparr>,
     \<lparr>model = 4, weight = 1/2, relSize = 1/2, quality = High\<rparr>,
     \<lparr>model = 5, weight = 1/2, relSize = 1/2, quality = High\<rparr>,
     \<lparr>model = 6, weight = 1/2, relSize = 1/2, quality = High\<rparr>,
     \<lparr>model = 7, weight = 1/2, relSize = 1/2, quality = High\<rparr>,
     \<lparr>model = 8, weight = 1/2, relSize = 1/2, quality = High\<rparr>,
     \<lparr>model = 9, weight = 1/2, relSize = 1/2, quality = High\<rparr>,
     \<lparr>model = 10, weight = 1/2, relSize = 1/2, quality = High\<rparr>,
     \<lparr>model = 11, weight = 1/2, relSize = 1/2, quality = High\<rparr>,
     \<lparr>model = 12, weight = 1/2, relSize = 1/2, quality = High\<rparr>,
     \<lparr>model = 13, weight = 1/2, relSize = 1/2, quality = High\<rparr>,
     \<lparr>model = 14, weight = 1/2, relSize = 1/2, quality = High\<rparr>,
     \<lparr>model = 15, weight = 1/2, relSize = 1/2, quality = Medium\<rparr>]"
  unfolding allocate_def Let_def sorted2
  by (simp add: budgetLoop_fits budgetLoop_lower quality_order del: budgetLoop.simps(2))

lemma second_pass:
  "lodPass (lodPass crowdedScene) =
    [loneHigh\<lparr>ins_quality := High\<rparr>,
     fullModel\<lparr>ins_quality := High\<rparr>,
     fullModel\<lparr>ins_quality := High\<rparr>,
     fullModel\<lparr>ins_quality := High\<rparr>,
     fullModel\<lparr>ins_quality := High\<rparr>,
     fullModel\<lparr>ins_quality := High\<rparr>,
     fullModel\<lparr>ins_quality := High\<rparr>,
     fullModel\<lparr>ins_quality := High\<rparr>,
     fullModel\<lparr>ins_quality := High\<rparr>,
     fullModel\<lparr>ins_quality := High\<rparr>,
     fullModel\<lparr>ins_quality := High\<rparr>,
     fullModel\<lparr>ins_quality := High\<rparr>,
     fullModel\<lparr>ins_quality := High\<rparr>,
     fullModel\<lparr>ins_quality := High\<rparr>,
     fullModel\<lparr>ins_quality := High\<rparr>,
     fullModel\<lparr>ins_quality := Medium\<rparr>]"
  unfolding lodPass_def[of "lodPass crowdedScene"] allocate2 unfolding first_pass
  by (simp add: applyQuality_def models_fields(3,4) quality_order)

text \<open>
  C8 as stated fails on the scene of sixteen models. The first pass proposes Medium for the
  first model and the collaborator answers with its one derivative, of quality High. The
  second pass then proposes High for it, the first fifteen models fill the budget, and the
  last model, kept at High by the first pass, is lowered to Medium.
\<close>

theorem lodPass_idempotent_counterexample:
  "map ins_quality crowdedScene = Thumb # replicate 15 High
   \<and> map ins_quality (lodPass crowdedScene) = replicate 16 High
   \<and> map ins_quality (lodPass (lodPass crowdedScene)) = replicate 15 High @ [Medium]"
proof -
  have a: "map ins_quality crowdedScene = Thumb # replicate 15 High"
    by (subst scene_list) (simp add: eval_nat_numeral)
  have b: "map ins_quality (lodPass crowdedScene) = replicate 16 High"
    by (subst first_pass) (simp add: eval_nat_numeral)
  have c: "map ins_quality (lodPass (lodPass crowdedScene)) = replicate 15 High @ [Medium]"
    by (subst second_pass) (simp add: eval_nat_numeral)
  show ?thesis
    by (intro conjI a b c)
qed

end
